theory Spec2Isabelle
  imports
    Main
    "HOL-Library.Multiset"
    "HOL-Library.Product_Lexorder"
    "HOL-Library.Char_ord"
    "HOL-Library.List_Lexorder"
begin

section \<open>Python values used by \<^verbatim>\<open>app.py\<close>\<close>

text \<open>
  The development embeds the document parsing and ranking functions of \<^verbatim>\<open>app.py\<close>.
  A Python \<^verbatim>\<open>str\<close> is a \<^typ>\<open>string\<close>; each \<^typ>\<open>char\<close> stands for one code point below
  256, so the string functions below are those of Python restricted to Latin-1 text.
  Python's unbounded integers are \<^typ>\<open>int\<close>. An exception that \<^verbatim>\<open>app.py\<close> does not catch
  is a value of \<open>error\<close>, returned as \<open>Inl\<close>; a \<^verbatim>\<open>ValueError\<close> that a library parser raises
  and the caller catches is the result \<open>None\<close> of that parser.
\<close>

datatype error = IndexError | TypeError | ValueError

subsection \<open>String methods\<close>

text \<open>\<^verbatim>\<open>str.isspace\<close> on one code point: 9 to 13, 28 to 32, 133 and 160.\<close>

definition is_space :: "char \<Rightarrow> bool" where
  "is_space c =
     (let n = (of_char c :: nat)
      in (9 \<le> n \<and> n \<le> 13) \<or> (28 \<le> n \<and> n \<le> 32) \<or> n = 133 \<or> n = 160)"

text \<open>The line boundaries of \<^verbatim>\<open>str.splitlines\<close>: 10 to 13, 28 to 30 and 133.\<close>

definition is_linebreak :: "char \<Rightarrow> bool" where
  "is_linebreak c =
     (let n = (of_char c :: nat)
      in (10 \<le> n \<and> n \<le> 13) \<or> (28 \<le> n \<and> n \<le> 30) \<or> n = 133)"

definition lstrip :: "string \<Rightarrow> string" where
  "lstrip s = dropWhile is_space s"

definition rstrip :: "string \<Rightarrow> string" where
  "rstrip s = rev (dropWhile is_space (rev s))"

definition strip :: "string \<Rightarrow> string" where
  "strip s = rstrip (lstrip s)"

text \<open>\<^verbatim>\<open>s.rstrip("%")\<close> removes every trailing percent sign.\<close>

definition rstrip_percent :: "string \<Rightarrow> string" where
  "rstrip_percent s = rev (dropWhile (\<lambda>c. c = CHR ''%'') (rev s))"

definition startswith :: "string \<Rightarrow> string \<Rightarrow> bool" where
  "startswith s p = (take (length p) s = p)"

text \<open>
  \<^verbatim>\<open>str.lower\<close>: the letters A to Z and the Latin-1 capitals 192 to 222 (without the
  multiplication sign 215) move up by 32; every other code point below 256 is unchanged.
\<close>

definition lower_char :: "char \<Rightarrow> char" where
  "lower_char c =
     (let n = (of_char c :: nat)
      in if (65 \<le> n \<and> n \<le> 90) \<or> (192 \<le> n \<and> n \<le> 222 \<and> n \<noteq> 215)
         then char_of (n + 32) else c)"

definition lower :: "string \<Rightarrow> string" where
  "lower s = map lower_char s"

text \<open>
  \<^verbatim>\<open>str.splitlines()\<close>: the text is cut at every line boundary, a carriage return followed
  by a line feed counts as one boundary, and a boundary at the very end opens no further
  line. The first argument collects the current line in reverse.
\<close>

fun splitlines_from :: "string \<Rightarrow> string \<Rightarrow> string list" where
  "splitlines_from cur [] = (if cur = [] then [] else [rev cur])"
| "splitlines_from cur [c] =
     (if is_linebreak c then [rev cur] else [rev (c # cur)])"
| "splitlines_from cur (c # d # cs) =
     (if c = CHR 0x0D \<and> d = CHR 0x0A then rev cur # splitlines_from [] cs
      else if is_linebreak c then rev cur # splitlines_from [] (d # cs)
      else splitlines_from (c # cur) (d # cs))"

definition splitlines :: "string \<Rightarrow> string list" where
  "splitlines s = splitlines_from [] s"

text \<open>\<^verbatim>\<open>"\n".join(lines)\<close>.\<close>

fun join_nl :: "string list \<Rightarrow> string" where
  "join_nl [] = []"
| "join_nl [l] = l"
| "join_nl (l # m # ls) = l @ CHR 0x0A # join_nl (m # ls)"

text \<open>
  \<^verbatim>\<open>s.split(":", 1)\<close>: the text before and after the first colon, or the text alone when
  it has no colon.
\<close>

definition split_colon :: "string \<Rightarrow> string list" where
  "split_colon s =
     (if CHR '':'' \<in> set s
      then [takeWhile (\<lambda>c. c \<noteq> CHR '':'') s, tl (dropWhile (\<lambda>c. c \<noteq> CHR '':'') s)]
      else [s])"

text \<open>Indexing a list raises \<^verbatim>\<open>IndexError\<close> out of range.\<close>

definition item :: "'a list \<Rightarrow> nat \<Rightarrow> error + 'a" where
  "item xs i = (if i < length xs then Inr (xs ! i) else Inl IndexError)"

text \<open>
  \<^verbatim>\<open>s.split("\n\n")\<close>: the pieces between the non-overlapping occurrences of two line
  feeds, found from the left. The first argument collects the current piece in reverse.
\<close>

fun split_blank_from :: "string \<Rightarrow> string \<Rightarrow> string list" where
  "split_blank_from cur [] = [rev cur]"
| "split_blank_from cur [c] = [rev (c # cur)]"
| "split_blank_from cur (c # d # cs) =
     (if c = CHR 0x0A \<and> d = CHR 0x0A then rev cur # split_blank_from [] cs
      else split_blank_from (c # cur) (d # cs))"

definition split_blank :: "string \<Rightarrow> string list" where
  "split_blank s = split_blank_from [] s"

text \<open>\<^verbatim>\<open>s.replace("\n", " ")\<close>.\<close>

definition replace_nl :: "string \<Rightarrow> string" where
  "replace_nl s = map (\<lambda>c. if c = CHR 0x0A then CHR '' '' else c) s"

subsection \<open>\<^verbatim>\<open>int(s)\<close>\<close>

text \<open>
  \<^verbatim>\<open>int\<close> on a string skips white space on both sides (the code points 9 to 13, 32, 133
  and 160; not 28 to 31), reads an optional sign and then decimal digits, where one
  underscore may stand between two digits. Anything else is a \<^verbatim>\<open>ValueError\<close>, here
  \<open>None\<close>. The interpreter's optional limit on the number of digits is not modelled.
\<close>

definition is_int_space :: "char \<Rightarrow> bool" where
  "is_int_space c =
     (let n = (of_char c :: nat)
      in (9 \<le> n \<and> n \<le> 13) \<or> n = 32 \<or> n = 133 \<or> n = 160)"

definition is_digit :: "char \<Rightarrow> bool" where
  "is_digit c = (let n = (of_char c :: nat) in 48 \<le> n \<and> n \<le> 57)"

definition digit_val :: "char \<Rightarrow> int" where
  "digit_val c = int (of_char c) - 48"

fun int_digits :: "int \<Rightarrow> string \<Rightarrow> int option" where
  "int_digits acc [] = Some acc"
| "int_digits acc [c] = (if is_digit c then Some (acc * 10 + digit_val c) else None)"
| "int_digits acc (c # d # cs) =
     (if is_digit c then int_digits (acc * 10 + digit_val c) (d # cs)
      else if c = CHR ''_'' \<and> is_digit d then int_digits (acc * 10 + digit_val d) cs
      else None)"

definition int_unsigned :: "string \<Rightarrow> int option" where
  "int_unsigned s =
     (case s of
        [] \<Rightarrow> None
      | c # cs \<Rightarrow> if is_digit c then int_digits (digit_val c) cs else None)"

definition py_int :: "string \<Rightarrow> int option" where
  "py_int s =
     (case rev (dropWhile is_int_space (rev (dropWhile is_int_space s))) of
        [] \<Rightarrow> None
      | c # cs \<Rightarrow>
          if c = CHR ''-'' then map_option uminus (int_unsigned cs)
          else if c = CHR ''+'' then int_unsigned cs
          else int_unsigned (c # cs))"

section \<open>Dates and times\<close>

text \<open>
  A naive \<^verbatim>\<open>datetime\<close> is its seven calendar and clock fields. A \<^verbatim>\<open>datetime\<close> is naive, or
  aware: then it also carries its offset from UTC, here in microseconds.
\<close>

record naive =
  year :: int
  month :: int
  day :: int
  hour :: int
  minute :: int
  second :: int
  microsecond :: int

datatype datetime = Naive naive | Aware naive int

definition is_leap :: "int \<Rightarrow> bool" where
  "is_leap y = (y mod 4 = 0 \<and> (y mod 100 \<noteq> 0 \<or> y mod 400 = 0))"

definition days_in_month :: "int \<Rightarrow> int \<Rightarrow> int" where
  "days_in_month y m =
     (if m = 2 then (if is_leap y then 29 else 28)
      else if m = 4 \<or> m = 6 \<or> m = 9 \<or> m = 11 then 30 else 31)"

definition days_before_year :: "int \<Rightarrow> int" where
  "days_before_year y = (y - 1) * 365 + (y - 1) div 4 - (y - 1) div 100 + (y - 1) div 400"

definition days_before_month :: "int \<Rightarrow> int \<Rightarrow> int" where
  "days_before_month y m = sum_list (map (days_in_month y) [1..m - 1])"

text \<open>The proleptic Gregorian ordinal: 1 January of year 1 is day 1.\<close>

definition ymd2ord :: "int \<Rightarrow> int \<Rightarrow> int \<Rightarrow> int" where
  "ymd2ord y m d = days_before_year y + days_before_month y m + d"

text \<open>The fields of a naive value as one count of microseconds.\<close>

definition naive_us :: "naive \<Rightarrow> int" where
  "naive_us n =
     (((ymd2ord (year n) (month n) (day n) * 24 + hour n) * 60 + minute n) * 60 + second n)
       * 1000000 + microsecond n"

definition epoch_us :: int where
  "epoch_us = naive_us \<lparr>year = 1970, month = 1, day = 1, hour = 0, minute = 0, second = 0,
     microsecond = 0\<rparr>"

text \<open>
  The constructor \<^verbatim>\<open>datetime(y, m, d, H, M, S, us, tzinfo)\<close> raises \<^verbatim>\<open>ValueError\<close> on a field
  out of range, and \<^verbatim>\<open>timezone\<close> on an offset of a day or more.
\<close>

definition new_datetime ::
  "int \<Rightarrow> int \<Rightarrow> int \<Rightarrow> int \<Rightarrow> int \<Rightarrow> int \<Rightarrow> int \<Rightarrow> int option \<Rightarrow> datetime option" where
  "new_datetime y m d H M S us tz =
     (if 1 \<le> y \<and> y \<le> 9999 \<and> 1 \<le> m \<and> m \<le> 12 \<and> 1 \<le> d \<and> d \<le> days_in_month y m
         \<and> 0 \<le> H \<and> H \<le> 23 \<and> 0 \<le> M \<and> M \<le> 59 \<and> 0 \<le> S \<and> S \<le> 59
         \<and> 0 \<le> us \<and> us \<le> 999999
      then
        (let n = \<lparr>year = y, month = m, day = d, hour = H, minute = M, second = S,
                  microsecond = us\<rparr>
         in case tz of
              None \<Rightarrow> Some (Naive n)
            | Some off \<Rightarrow>
                if - 86400000000 < off \<and> off < 86400000000 then Some (Aware n off) else None)
      else None)"

text \<open>
  \<^verbatim>\<open>a - b\<close> on two \<^verbatim>\<open>datetime\<close> values, as the microseconds of the \<^verbatim>\<open>timedelta\<close>: Python
  raises \<^verbatim>\<open>TypeError\<close> when one is naive and the other aware.
\<close>

fun datetime_sub :: "datetime \<Rightarrow> datetime \<Rightarrow> error + int" where
  "datetime_sub (Naive a) (Naive b) = Inr (naive_us a - naive_us b)"
| "datetime_sub (Aware a oa) (Aware b ob) = Inr ((naive_us a - oa) - (naive_us b - ob))"
| "datetime_sub (Naive a) (Aware b ob) = Inl TypeError"
| "datetime_sub (Aware a oa) (Naive b) = Inl TypeError"

subsection \<open>\<^verbatim>\<open>datetime.strptime\<close> with the two fixed formats\<close>

text \<open>
  \<^verbatim>\<open>strptime\<close> turns the format \<^verbatim>\<open>%Y-%m-%d\<close> into the regular expression
  \<^verbatim>\<open>(\d\d\d\d)-(1[0-2]|0[1-9]|[1-9])-(3[0-1]|[1-2]\d|0[1-9]|[1-9]| [1-9])\<close>, matches it at
  the start of the text, and raises \<^verbatim>\<open>ValueError\<close> when it does not match, when text is
  left over, or when the three numbers are no date. The format \<^verbatim>\<open>%Y/%m/%d\<close> has a slash
  in place of each hyphen. A matcher returns the number it read and the rest of the text.
\<close>

definition in_range :: "char \<Rightarrow> char \<Rightarrow> char \<Rightarrow> bool" where
  "in_range lo hi c = ((of_char lo :: nat) \<le> of_char c \<and> (of_char c :: nat) \<le> of_char hi)"

definition match_year :: "string \<Rightarrow> (int \<times> string) option" where
  "match_year s =
     (case s of
        a # b # c # d # r \<Rightarrow>
          if is_digit a \<and> is_digit b \<and> is_digit c \<and> is_digit d
          then Some (((digit_val a * 10 + digit_val b) * 10 + digit_val c) * 10 + digit_val d, r)
          else None
      | _ \<Rightarrow> None)"

definition match_month :: "string \<Rightarrow> (int \<times> string) option" where
  "match_month s =
     (case s of
        [] \<Rightarrow> None
      | [a] \<Rightarrow> if in_range CHR ''1'' CHR ''9'' a then Some (digit_val a, []) else None
      | a # b # r \<Rightarrow>
          if a = CHR ''1'' \<and> in_range CHR ''0'' CHR ''2'' b then Some (10 + digit_val b, r)
          else if a = CHR ''0'' \<and> in_range CHR ''1'' CHR ''9'' b then Some (digit_val b, r)
          else if in_range CHR ''1'' CHR ''9'' a then Some (digit_val a, b # r)
          else None)"

definition match_day :: "string \<Rightarrow> (int \<times> string) option" where
  "match_day s =
     (case s of
        [] \<Rightarrow> None
      | [a] \<Rightarrow> if in_range CHR ''1'' CHR ''9'' a then Some (digit_val a, []) else None
      | a # b # r \<Rightarrow>
          if a = CHR ''3'' \<and> in_range CHR ''0'' CHR ''1'' b then Some (30 + digit_val b, r)
          else if in_range CHR ''1'' CHR ''2'' a \<and> is_digit b
            then Some (digit_val a * 10 + digit_val b, r)
          else if a = CHR ''0'' \<and> in_range CHR ''1'' CHR ''9'' b then Some (digit_val b, r)
          else if in_range CHR ''1'' CHR ''9'' a then Some (digit_val a, b # r)
          else if a = CHR '' '' \<and> in_range CHR ''1'' CHR ''9'' b then Some (digit_val b, r)
          else None)"

definition match_char :: "char \<Rightarrow> string \<Rightarrow> string option" where
  "match_char c s = (case s of [] \<Rightarrow> None | a # r \<Rightarrow> if a = c then Some r else None)"

definition strptime_ymd :: "char \<Rightarrow> string \<Rightarrow> datetime option" where
  "strptime_ymd sep s =
     (case match_year s of
        None \<Rightarrow> None
      | Some (y, r1) \<Rightarrow>
     (case match_char sep r1 of
        None \<Rightarrow> None
      | Some r2 \<Rightarrow>
     (case match_month r2 of
        None \<Rightarrow> None
      | Some (m, r3) \<Rightarrow>
     (case match_char sep r3 of
        None \<Rightarrow> None
      | Some r4 \<Rightarrow>
     (case match_day r4 of
        None \<Rightarrow> None
      | Some (d, r5) \<Rightarrow>
          if r5 = [] then new_datetime y m d 0 0 0 0 None else None)))))"


subsection \<open>\<^verbatim>\<open>datetime.fromisoformat\<close> and \<^verbatim>\<open>timestamp()\<close>\<close>

text \<open>
  What \<^verbatim>\<open>datetime.fromisoformat\<close> accepts has changed between Python versions, what
  \<^verbatim>\<open>timestamp()\<close> returns for a naive value depends on the time zone of the host, and the
  markdown renderer is a library of its own. The functions of \<^verbatim>\<open>app.py\<close> therefore take
  the three as an environment:
  \<^item> \<open>fromisoformat\<close>, with \<open>None\<close> for its \<^verbatim>\<open>ValueError\<close>;
  \<^item> \<open>local_timestamp\<close>, the result of \<^verbatim>\<open>timestamp()\<close> on a naive value in microseconds,
    or the exception it raises for a time the host cannot convert;
  \<^item> \<open>markdown\<close>, the call \<^verbatim>\<open>markdown.markdown(text, extensions=[...])\<close> with the fixed
    list of extensions.

  Times are kept as exact counts of microseconds. Python holds the seconds of
  \<^verbatim>\<open>timestamp()\<close> and \<^verbatim>\<open>total_seconds()\<close> in a double; that rounding keeps the order of
  two times but may make two times a few microseconds apart equal, which is outside this
  model.
\<close>

record env =
  fromisoformat :: "string \<Rightarrow> datetime option"
  local_timestamp :: "naive \<Rightarrow> error + int"
  markdown :: "string \<Rightarrow> string"

text \<open>\<^verbatim>\<open>dt.timestamp()\<close>: an aware value is compared with the epoch in UTC.\<close>

definition timestamp :: "env \<Rightarrow> datetime \<Rightarrow> error + int" where
  "timestamp e dt =
     (case dt of
        Naive n \<Rightarrow> local_timestamp e n
      | Aware n off \<Rightarrow> Inr (naive_us n - off - epoch_us))"

text \<open>
  One concrete environment, for evaluating the functions on given documents. Its
  \<open>fromisoformat\<close> is the grammar that the documentation of Python 3.7 to 3.10 gives,
  \<^verbatim>\<open>YYYY-MM-DD[*HH[:MM[:SS[.fff[fff]]]][+HH:MM[:SS[.ffffff]]]]\<close>, where \<^verbatim>\<open>*\<close> is any one
  character; later versions accept these texts with the same result, and more. Its
  \<open>local_timestamp\<close> is CPython's on a host whose local time is UTC: the conversion looks
  up the local offset one day before the given time as well, and raises \<^verbatim>\<open>ValueError\<close>
  (year 0 is out of range) when that day lies before 1 January of year 1. Its renderer
  returns the text it is given.
\<close>

definition match_digits2 :: "string \<Rightarrow> (int \<times> string) option" where
  "match_digits2 s =
     (case s of
        a # b # r \<Rightarrow>
          if is_digit a \<and> is_digit b then Some (digit_val a * 10 + digit_val b, r) else None
      | _ \<Rightarrow> None)"

definition digits_value :: "string \<Rightarrow> int" where
  "digits_value s = foldl (\<lambda>a c. a * 10 + digit_val c) 0 s"

definition parse_fraction :: "string \<Rightarrow> int option" where
  "parse_fraction f =
     (if list_all is_digit f \<and> length f = 3 then Some (digits_value f * 1000)
      else if list_all is_digit f \<and> length f = 6 then Some (digits_value f)
      else None)"

definition parse_hh_mm_ss_ff :: "string \<Rightarrow> (int \<times> int \<times> int \<times> int) option" where
  "parse_hh_mm_ss_ff s =
     (case match_digits2 s of
        None \<Rightarrow> None
      | Some (H, r1) \<Rightarrow>
          if r1 = [] then Some (H, 0, 0, 0)
          else
     (case match_char CHR '':'' r1 of
        None \<Rightarrow> None
      | Some r2 \<Rightarrow>
     (case match_digits2 r2 of
        None \<Rightarrow> None
      | Some (M, r3) \<Rightarrow>
          if r3 = [] then Some (H, M, 0, 0)
          else
     (case match_char CHR '':'' r3 of
        None \<Rightarrow> None
      | Some r4 \<Rightarrow>
     (case match_digits2 r4 of
        None \<Rightarrow> None
      | Some (S, r5) \<Rightarrow>
          if r5 = [] then Some (H, M, S, 0)
          else
     (case match_char CHR ''.'' r5 of
        None \<Rightarrow> None
      | Some f \<Rightarrow> map_option (\<lambda>us. (H, M, S, us)) (parse_fraction f)))))))"

definition parse_offset :: "string \<Rightarrow> int option option" where
  "parse_offset tz =
     (case tz of
        [] \<Rightarrow> Some None
      | sg # body \<Rightarrow>
          if length body = 5 \<or> length body = 8 \<or> length body = 15
          then
            (case parse_hh_mm_ss_ff body of
               None \<Rightarrow> None
             | Some (H, M, S, us) \<Rightarrow>
                 Some (Some ((if sg = CHR ''-'' then - 1 else 1)
                   * (((H * 60 + M) * 60 + S) * 1000000 + us))))
          else None)"

definition is_sign :: "char \<Rightarrow> bool" where
  "is_sign c = (c = CHR ''+'' \<or> c = CHR ''-'')"

definition fromisoformat_doc :: "string \<Rightarrow> datetime option" where
  "fromisoformat_doc s =
     (case match_year s of
        None \<Rightarrow> None
      | Some (y, r1) \<Rightarrow>
     (case match_char CHR ''-'' r1 of
        None \<Rightarrow> None
      | Some r2 \<Rightarrow>
     (case match_digits2 r2 of
        None \<Rightarrow> None
      | Some (m, r3) \<Rightarrow>
     (case match_char CHR ''-'' r3 of
        None \<Rightarrow> None
      | Some r4 \<Rightarrow>
     (case match_digits2 r4 of
        None \<Rightarrow> None
      | Some (d, r5) \<Rightarrow>
     (case r5 of
        [] \<Rightarrow> new_datetime y m d 0 0 0 0 None
      | sep # t \<Rightarrow>
     (case parse_hh_mm_ss_ff (takeWhile (\<lambda>c. \<not> is_sign c) t) of
        None \<Rightarrow> None
      | Some (H, M, S, us) \<Rightarrow>
     (case parse_offset (dropWhile (\<lambda>c. \<not> is_sign c) t) of
        None \<Rightarrow> None
      | Some tz \<Rightarrow> new_datetime y m d H M S us tz))))))))"

definition utc_timestamp :: "naive \<Rightarrow> error + int" where
  "utc_timestamp n =
     (if ymd2ord (year n) (month n) (day n) - 1 < 1 then Inl ValueError
      else Inr (naive_us n - epoch_us))"

definition cpython_utc :: env where
  "cpython_utc =
     \<lparr>fromisoformat = fromisoformat_doc, local_timestamp = utc_timestamp,
      markdown = (\<lambda>s. s)\<rparr>"

section \<open>The data model\<close>

record Post =
  slug :: string
  title :: string
  excerpt :: string
  content_html :: string
  published_at :: "datetime option"
  updated_at :: naive

record RoadmapEntry =
  slug :: string
  title :: string
  status :: string
  status_class :: string
  deadline :: "string option"
  progress :: "int option"
  excerpt :: string
  content_html :: string
  updated_at :: naive

text \<open>
  \<open>updated_at\<close> is \<^verbatim>\<open>datetime.fromtimestamp(st_mtime)\<close>, which is always naive, so the field
  has the type of naive values.
\<close>

section \<open>Excerpts\<close>

text \<open>The loop of \<^verbatim>\<open>_extract_excerpt\<close> over the paragraphs.\<close>

fun first_paragraph :: "string list \<Rightarrow> string" where
  "first_paragraph [] = []"
| "first_paragraph (p # ps) =
     (let clean = strip p in if clean \<noteq> [] then replace_nl clean else first_paragraph ps)"

definition extract_excerpt :: "string \<Rightarrow> string" where
  "extract_excerpt body_text = first_paragraph (split_blank body_text)"

section \<open>Posts\<close>

definition has_title :: "string list \<Rightarrow> bool" where
  "has_title ls = (case ls of [] \<Rightarrow> False | l # _ \<Rightarrow> startswith l ''# '')"

definition title_of :: "string list \<Rightarrow> string" where
  "title_of ls =
     (if has_title ls
      then (let t = strip (drop 2 (hd ls)) in if t \<noteq> [] then t else ''Untitled'')
      else ''Untitled'')"

definition body_start :: "string list \<Rightarrow> nat" where
  "body_start ls = (if has_title ls then 1 else 0)"

text \<open>
  The loop of \<^verbatim>\<open>_parse_markdown\<close> over the lines after the title, with the variables
  \<^verbatim>\<open>published_at\<close> and \<^verbatim>\<open>body_lines\<close> as arguments.
\<close>

fun scan_post ::
  "env \<Rightarrow> string list \<Rightarrow> datetime option \<Rightarrow> string list
     \<Rightarrow> error + (datetime option \<times> string list)" where
  "scan_post e [] pub body = Inr (pub, body)"
| "scan_post e (line # rest) pub body =
     (if startswith (lower line) ''date:'' then
        (case item (split_colon line) 1 of
           Inl err \<Rightarrow> Inl err
         | Inr v \<Rightarrow>
             (let date_value = strip v
              in scan_post e rest
                   (if date_value \<noteq> [] then fromisoformat e date_value else pub) body))
      else scan_post e rest pub (body @ [line]))"

definition parse_markdown ::
  "env \<Rightarrow> string \<Rightarrow> error + (string \<times> string \<times> string \<times> datetime option)" where
  "parse_markdown e md_text =
     (let ls = map rstrip (splitlines md_text)
      in case scan_post e (drop (body_start ls) ls) None [] of
           Inl err \<Rightarrow> Inl err
         | Inr (pub, body) \<Rightarrow>
             (let body_text = strip (join_nl body);
                  exc = extract_excerpt body_text;
                  render_lines = (if has_title ls then [hd ls] else []) @ body;
                  html = markdown e (strip (join_nl render_lines))
              in Inr (title_of ls, exc, html, pub)))"

section \<open>Roadmap entries\<close>

text \<open>The loop of \<^verbatim>\<open>_parse_deadline\<close> over the three parsers.\<close>

fun try_parsers :: "(string \<Rightarrow> datetime option) list \<Rightarrow> string \<Rightarrow> datetime option" where
  "try_parsers [] s = None"
| "try_parsers (p # ps) s = (case p s of Some dt \<Rightarrow> Some dt | None \<Rightarrow> try_parsers ps s)"

definition parse_deadline :: "env \<Rightarrow> string option \<Rightarrow> datetime option" where
  "parse_deadline e dl =
     (case dl of
        None \<Rightarrow> None
      | Some s \<Rightarrow>
          if s = [] then None
          else try_parsers
                 [fromisoformat e, strptime_ymd CHR ''-'', strptime_ymd CHR ''/''] s)"

definition status_rank :: "string \<Rightarrow> int" where
  "status_rank st =
     (case map_of [(''now'', 0), (''next'', 1), (''later'', 2), (''done'', 3)]
             (lower (strip st)) of
        Some r \<Rightarrow> r
      | None \<Rightarrow> 0)"


subsection \<open>Sort keys\<close>

text \<open>
  The third component of both sort keys is a float: a time in microseconds, or
  \<^verbatim>\<open>float("inf")\<close>, which is above every time.
\<close>

datatype pyfloat = Fin int | PosInf

instantiation pyfloat :: linorder
begin

fun less_eq_pyfloat :: "pyfloat \<Rightarrow> pyfloat \<Rightarrow> bool" where
  "less_eq_pyfloat (Fin a) (Fin b) = (a \<le> b)"
| "less_eq_pyfloat (Fin a) PosInf = True"
| "less_eq_pyfloat PosInf (Fin b) = False"
| "less_eq_pyfloat PosInf PosInf = True"

definition less_pyfloat :: "pyfloat \<Rightarrow> pyfloat \<Rightarrow> bool" where
  "less_pyfloat x y = (x \<le> y \<and> \<not> y \<le> x)"

instance
proof
  fix x y z :: pyfloat
  show "(x < y) = (x \<le> y \<and> \<not> y \<le> x)"
    by (simp add: less_pyfloat_def)
  show "x \<le> x"
    by (cases x) simp_all
  show "x \<le> y \<Longrightarrow> y \<le> z \<Longrightarrow> x \<le> z"
    by (cases x; cases y; cases z) simp_all
  show "x \<le> y \<Longrightarrow> y \<le> x \<Longrightarrow> x = y"
    by (cases x; cases y) simp_all
  show "x \<le> y \<or> y \<le> x"
    by (cases x; cases y) auto
qed

end

text \<open>
  \<^verbatim>\<open>_roadmap_sort_key\<close>. The second argument is the value \<^verbatim>\<open>datetime.now()\<close> returns
  during this call, a naive local time.
\<close>

definition roadmap_sort_key ::
  "env \<Rightarrow> naive \<Rightarrow> RoadmapEntry \<Rightarrow> error + (int \<times> int \<times> pyfloat \<times> int)" where
  "roadmap_sort_key e now entry =
     (let rank = status_rank (status entry);
          deadline_dt = parse_deadline e (deadline entry)
      in case deadline_dt of
           None \<Rightarrow>
             (case local_timestamp e (updated_at entry) of
                Inl err \<Rightarrow> Inl err
              | Inr ts \<Rightarrow> Inr (rank, 1, PosInf, - ts))
         | Some dt \<Rightarrow>
             (case datetime_sub dt (Naive now) of
                Inl err \<Rightarrow> Inl err
              | Inr delta \<Rightarrow>
                  (case local_timestamp e (updated_at entry) of
                     Inl err \<Rightarrow> Inl err
                   | Inr ts \<Rightarrow> Inr (rank, 0, Fin \<bar>delta\<bar>, - ts))))"

definition homepage_sort_key ::
  "env \<Rightarrow> RoadmapEntry \<Rightarrow> error + (int \<times> int \<times> pyfloat)" where
  "homepage_sort_key e entry =
     (let p = (case progress entry of Some v \<Rightarrow> v | None \<Rightarrow> - 1);
          deadline_dt = parse_deadline e (deadline entry)
      in case deadline_dt of
           None \<Rightarrow> Inr (- p, 1, PosInf)
         | Some dt \<Rightarrow>
             (case timestamp e dt of
                Inl err \<Rightarrow> Inl err
              | Inr ts \<Rightarrow> Inr (- p, 0, Fin ts)))"

text \<open>
  \<open>map_err f xs\<close> calls \<open>f\<close> on every element from the first to the last; the first
  exception ends it. \<^verbatim>\<open>xs.sort(key=f)\<close> computes the keys this way, also when the list
  has one element, and then sorts stably by them.
\<close>

fun map_err :: "('a \<Rightarrow> error + 'k) \<Rightarrow> 'a list \<Rightarrow> error + 'k list" where
  "map_err f [] = Inr []"
| "map_err f (x # xs) =
     (case f x of
        Inl err \<Rightarrow> Inl err
      | Inr k \<Rightarrow> (case map_err f xs of Inl err \<Rightarrow> Inl err | Inr ks \<Rightarrow> Inr (k # ks)))"

definition list_sort :: "('a \<Rightarrow> error + 'k::linorder) \<Rightarrow> 'a list \<Rightarrow> error + 'a list" where
  "list_sort f xs =
     (case map_err f xs of
        Inl err \<Rightarrow> Inl err
      | Inr ks \<Rightarrow> Inr (map snd (sort_key fst (zip ks xs))))"

definition eligible :: "RoadmapEntry \<Rightarrow> bool" where
  "eligible entry = (case progress entry of None \<Rightarrow> False | Some p \<Rightarrow> p < 100)"

definition select_homepage_entries :: "env \<Rightarrow> RoadmapEntry list \<Rightarrow> error + RoadmapEntry list" where
  "select_homepage_entries e entries =
     (case list_sort (homepage_sort_key e) (filter eligible entries) of
        Inl err \<Rightarrow> Inl err
      | Inr candidates \<Rightarrow> Inr (take 3 candidates))"

subsection \<open>Parsing a roadmap document\<close>

text \<open>
  The loop of \<^verbatim>\<open>_parse_roadmap_entry\<close>, with the variables \<^verbatim>\<open>status\<close>, \<^verbatim>\<open>deadline\<close>,
  \<^verbatim>\<open>progress\<close> and \<^verbatim>\<open>body_lines\<close> as arguments.
\<close>

definition progress_update :: "string \<Rightarrow> int option \<Rightarrow> int option" where
  "progress_update progress_value pr =
     (if progress_value \<noteq> [] then
        (case py_int progress_value of
           None \<Rightarrow> pr
         | Some parsed \<Rightarrow> if 0 \<le> parsed \<and> parsed \<le> 100 then Some parsed else pr)
      else pr)"

fun scan_roadmap ::
  "string list \<Rightarrow> string \<Rightarrow> string option \<Rightarrow> int option \<Rightarrow> string list
     \<Rightarrow> error + (string \<times> string option \<times> int option \<times> string list)" where
  "scan_roadmap [] st dl pr body = Inr (st, dl, pr, body)"
| "scan_roadmap (line # rest) st dl pr body =
     (if startswith (lower line) ''status:'' then
        (case item (split_colon line) 1 of
           Inl err \<Rightarrow> Inl err
         | Inr v \<Rightarrow>
             (let status_value = strip v
              in scan_roadmap rest (if status_value \<noteq> [] then status_value else st) dl pr body))
      else if startswith (lower line) ''deadline:'' then
        (case item (split_colon line) 1 of
           Inl err \<Rightarrow> Inl err
         | Inr v \<Rightarrow>
             (let deadline_value = strip v
              in scan_roadmap rest st
                   (if deadline_value \<noteq> [] then Some deadline_value else dl) pr body))
      else if startswith (lower line) ''progress:'' then
        (case item (split_colon line) 1 of
           Inl err \<Rightarrow> Inl err
         | Inr v \<Rightarrow>
             (let progress_value = rstrip_percent (strip v)
              in scan_roadmap rest st dl (progress_update progress_value pr) body))
      else scan_roadmap rest st dl pr (body @ [line]))"

definition parse_roadmap_entry ::
  "env \<Rightarrow> string
     \<Rightarrow> error + (string \<times> string \<times> string \<times> string option \<times> int option \<times> string)" where
  "parse_roadmap_entry e md_text =
     (let ls = map rstrip (splitlines md_text)
      in case scan_roadmap (drop (body_start ls) ls) ''Now'' None None [] of
           Inl err \<Rightarrow> Inl err
         | Inr (st, dl, pr, body) \<Rightarrow>
             (let body_text = strip (join_nl body);
                  exc = extract_excerpt body_text;
                  html = markdown e body_text
              in Inr (title_of ls, st, html, dl, pr, exc)))"

section \<open>Loading the two directories\<close>

text \<open>
  The file system is outside the program. A directory is given as the list of the files
  that \<^verbatim>\<open>glob("*.md")\<close> finds in it, in any order: each with its name, its text as
  \<^verbatim>\<open>read_text\<close> returns it, and its modification time as \<^verbatim>\<open>datetime.fromtimestamp\<close>
  returns it. Paths of one directory compare as their file names do.
\<close>

record md_file =
  fname :: string
  content :: string
  mtime :: naive

text \<open>\<^verbatim>\<open>Path.stem\<close>: the name without its last suffix.\<close>

definition stem :: "string \<Rightarrow> string" where
  "stem name =
     (if CHR ''.'' \<in> set name then
        (let suffix_len = length (takeWhile (\<lambda>c. c \<noteq> CHR ''.'') (rev name));
             i = length name - 1 - suffix_len
         in if 0 < i \<and> 0 < suffix_len then take i name else name)
      else name)"

text \<open>Naive values compare field by field.\<close>

definition naive_key :: "naive \<Rightarrow> int \<times> int \<times> int \<times> int \<times> int \<times> int \<times> int" where
  "naive_key n = (year n, month n, day n, hour n, minute n, second n, microsecond n)"

definition build_post :: "env \<Rightarrow> md_file \<Rightarrow> error + Post" where
  "build_post e f =
     (case parse_markdown e (content f) of
        Inl err \<Rightarrow> Inl err
      | Inr (ttl, exc, html, pub) \<Rightarrow>
          Inr \<lparr>Post.slug = stem (fname f), Post.title = ttl, Post.excerpt = exc,
               Post.content_html = html, published_at = pub, Post.updated_at = mtime f\<rparr>)"

text \<open>
  \<^verbatim>\<open>xs.sort(key=f, reverse=True)\<close> reverses the list, sorts it stably and reverses the
  result, so that elements with equal keys keep their order.
\<close>

definition list_sort_reverse :: "('a \<Rightarrow> 'k::linorder) \<Rightarrow> 'a list \<Rightarrow> 'a list" where
  "list_sort_reverse f xs = rev (sort_key f (rev xs))"

definition load_posts :: "env \<Rightarrow> md_file list \<Rightarrow> error + Post list" where
  "load_posts e files =
     (case map_err (build_post e) (sort_key fname files) of
        Inl err \<Rightarrow> Inl err
      | Inr posts \<Rightarrow> Inr (list_sort_reverse (\<lambda>post. naive_key (Post.updated_at post)) posts))"

definition status_class_of :: "string \<Rightarrow> string" where
  "status_class_of st =
     (case map_of [(''now'', ''status-now''), (''next'', ''status-next''),
                   (''later'', ''status-later''), (''done'', ''status-done'')]
             (lower (strip st)) of
        Some c \<Rightarrow> c
      | None \<Rightarrow> ''status-now'')"

definition build_entry :: "env \<Rightarrow> md_file \<Rightarrow> error + RoadmapEntry" where
  "build_entry e f =
     (case parse_roadmap_entry e (content f) of
        Inl err \<Rightarrow> Inl err
      | Inr (ttl, st, html, dl, pr, exc) \<Rightarrow>
          Inr \<lparr>slug = stem (fname f), title = ttl,
               status = (if st \<noteq> [] then st else ''Now''),
               status_class = status_class_of st, deadline = dl, progress = pr,
               excerpt = exc, content_html = html, updated_at = mtime f\<rparr>)"

text \<open>
  \<^verbatim>\<open>load_roadmap\<close>. The clock is read anew in every call of the sort key: \<open>clock i\<close> is
  the value of \<^verbatim>\<open>datetime.now()\<close> while the key of the entry at index \<open>i\<close> is computed.
\<close>

definition load_roadmap ::
  "env \<Rightarrow> (nat \<Rightarrow> naive) \<Rightarrow> md_file list \<Rightarrow> error + RoadmapEntry list" where
  "load_roadmap e clock files =
     (case map_err (build_entry e) (sort_key fname files) of
        Inl err \<Rightarrow> Inl err
      | Inr entries \<Rightarrow>
          (case list_sort (\<lambda>(i, entry). roadmap_sort_key e (clock i) entry)
                  (enumerate 0 entries) of
             Inl err \<Rightarrow> Inl err
           | Inr sorted_entries \<Rightarrow> Inr (map snd sorted_entries)))"


section \<open>Notions for stating the properties\<close>

text \<open>
  The lines of a document as both parsers see them, and the lines their loops scan: all
  lines but a title line.
\<close>

definition doc_lines :: "string \<Rightarrow> string list" where
  "doc_lines t = map rstrip (splitlines t)"

definition scanned_lines :: "string \<Rightarrow> string list" where
  "scanned_lines t = drop (body_start (doc_lines t)) (doc_lines t)"

definition title_line :: "string \<Rightarrow> string list" where
  "title_line t = (if has_title (doc_lines t) then [hd (doc_lines t)] else [])"

text \<open>
  A field line of a key (the key is written with its colon), the value of a field line,
  and the values of all field lines of a key in the order of the lines.
\<close>

definition is_field :: "string \<Rightarrow> string \<Rightarrow> bool" where
  "is_field key line = startswith (lower line) key"

definition field_value :: "string \<Rightarrow> string" where
  "field_value line = strip (tl (dropWhile (\<lambda>c. c \<noteq> CHR '':'') line))"

definition field_values :: "string \<Rightarrow> string list \<Rightarrow> string list" where
  "field_values key ls = map field_value (filter (is_field key) ls)"

definition is_roadmap_field :: "string \<Rightarrow> bool" where
  "is_roadmap_field line =
     (is_field ''status:'' line \<or> is_field ''deadline:'' line \<or> is_field ''progress:'' line)"

definition post_body_lines :: "string \<Rightarrow> string list" where
  "post_body_lines t = filter (\<lambda>l. \<not> is_field ''date:'' l) (scanned_lines t)"

definition roadmap_body_lines :: "string \<Rightarrow> string list" where
  "roadmap_body_lines t = filter (\<lambda>l. \<not> is_roadmap_field l) (scanned_lines t)"

definition last_option :: "'a list \<Rightarrow> 'a option" where
  "last_option xs = (if xs = [] then None else Some (last xs))"

text \<open>The progress that the value of one progress line stands for, if any.\<close>

definition progress_of_value :: "string \<Rightarrow> int option" where
  "progress_of_value v =
     (case py_int (rstrip_percent v) of
        None \<Rightarrow> None
      | Some n \<Rightarrow> if 0 \<le> n \<and> n \<le> 100 then Some n else None)"

text \<open>
  The rule for a progress value in the words of the specification, for comparison with
  \<open>progress_of_value\<close>: strip a trailing percent sign if present, parse as integer, keep
  only if in the range from 0 to 100.
\<close>

definition spec_progress_of_value :: "string \<Rightarrow> int option" where
  "spec_progress_of_value v =
     (let w = (if v \<noteq> [] \<and> last v = CHR ''%'' then butlast v else v)
      in case py_int w of
           None \<Rightarrow> None
         | Some n \<Rightarrow> if 0 \<le> n \<and> n \<le> 100 then Some n else None)"

section \<open>The loops over the lines\<close>

lemma lower_char_colon: "lower_char c = CHR '':'' \<Longrightarrow> c = CHR '':''"
proof (cases "lower_char c = c")
  case True
  assume "lower_char c = CHR '':''"
  with True show ?thesis by simp
next
  case False
  assume a: "lower_char c = CHR '':''"
  from False have r: "(65 \<le> (of_char c :: nat) \<and> (of_char c :: nat) \<le> 90) \<or>
      (192 \<le> (of_char c :: nat) \<and> (of_char c :: nat) \<le> 222 \<and> (of_char c :: nat) \<noteq> 215)"
    and l: "lower_char c = char_of ((of_char c :: nat) + 32)"
    by (auto simp: lower_char_def Let_def split: if_splits)
  from a l have "(of_char (char_of ((of_char c :: nat) + 32)) :: nat) = of_char (CHR '':'')"
    by simp
  then have "((of_char c :: nat) + 32) mod 256 = 58"
    by simp
  moreover from r have "(of_char c :: nat) + 32 < 256"
    by linarith
  ultimately have "(of_char c :: nat) + 32 = 58"
    by simp
  with r have False
    by linarith
  then show ?thesis ..
qed

lemma colon_in_field_line:
  assumes "startswith (lower line) key" and "CHR '':'' \<in> set key"
  shows "CHR '':'' \<in> set line"
proof -
  from assms(1) have "take (length key) (map lower_char line) = key"
    by (simp add: startswith_def lower_def)
  then have "set key \<subseteq> set (map lower_char line)"
    by (metis set_take_subset)
  with assms(2) obtain c where "c \<in> set line" and "lower_char c = CHR '':''"
    by auto
  then show ?thesis
    using lower_char_colon by blast
qed

lemma item_split_colon:
  assumes "CHR '':'' \<in> set line"
  shows "item (split_colon line) 1 = Inr (tl (dropWhile (\<lambda>c. c \<noteq> CHR '':'') line))"
  using assms by (simp add: item_def split_colon_def)

lemma field_line_value:
  assumes "is_field key line" and "CHR '':'' \<in> set key"
  shows "item (split_colon line) 1 = Inr (tl (dropWhile (\<lambda>c. c \<noteq> CHR '':'') line))"
  using assms colon_in_field_line item_split_colon by (simp add: is_field_def)

lemma last_option_filter_Cons:
  "last_option (filter P (x # xs)) =
     (case last_option (filter P xs) of
        Some y \<Rightarrow> Some y
      | None \<Rightarrow> if P x then Some x else None)"
  by (simp add: last_option_def)

lemma last_option_map_filter_Cons:
  "last_option (List.map_filter f (x # xs)) =
     (case last_option (List.map_filter f xs) of
        Some y \<Rightarrow> Some y
      | None \<Rightarrow> f x)"
  by (cases "f x") (simp_all add: last_option_def List.map_filter_simps)

lemma scan_post_eq:
  "scan_post e ls pub body =
     Inr (case last_option (filter (\<lambda>v. v \<noteq> []) (field_values ''date:'' ls)) of
            None \<Rightarrow> pub
          | Some v \<Rightarrow> fromisoformat e v,
          body @ filter (\<lambda>l. \<not> is_field ''date:'' l) ls)"
proof (induction ls arbitrary: pub body)
  case Nil
  show ?case
    by (simp add: field_values_def last_option_def)
next
  case (Cons l ls)
  show ?case
  proof (cases "is_field ''date:'' l")
    case True
    then have v: "item (split_colon l) 1 = Inr (tl (dropWhile (\<lambda>c. c \<noteq> CHR '':'') l))"
      by (rule field_line_value) simp
    have fv: "field_values ''date:'' (l # ls) = field_value l # field_values ''date:'' ls"
      using True by (simp add: field_values_def)
    from True have sw: "startswith (lower l) ''date:''"
      by (simp add: is_field_def)
    show ?thesis
      unfolding fv last_option_filter_Cons
      using True sw v Cons.IH
      by (simp add: field_value_def Let_def split: option.splits)
  next
    case False
    then have fv: "field_values ''date:'' (l # ls) = field_values ''date:'' ls"
      by (simp add: field_values_def)
    from False have sw: "\<not> startswith (lower l) ''date:''"
      by (simp add: is_field_def)
    show ?thesis
      unfolding fv using False sw Cons.IH by simp
  qed
qed


lemma field_exclusive:
  "is_field ''status:'' l \<Longrightarrow> \<not> is_field ''deadline:'' l"
  "is_field ''status:'' l \<Longrightarrow> \<not> is_field ''progress:'' l"
  "is_field ''deadline:'' l \<Longrightarrow> \<not> is_field ''progress:'' l"
  by (cases "lower l"; auto simp: is_field_def startswith_def)+

lemma py_int_empty: "py_int [] = None"
  by (simp add: py_int_def)

lemma progress_update_eq:
  "progress_update (rstrip_percent v) pr =
     (case progress_of_value v of None \<Rightarrow> pr | Some n \<Rightarrow> Some n)"
  by (simp add: progress_update_def progress_of_value_def py_int_empty split: option.splits)

lemma scan_roadmap_eq:
  "scan_roadmap ls st dl pr body =
     Inr (case last_option (filter (\<lambda>v. v \<noteq> []) (field_values ''status:'' ls)) of
            None \<Rightarrow> st
          | Some v \<Rightarrow> v,
          case last_option (filter (\<lambda>v. v \<noteq> []) (field_values ''deadline:'' ls)) of
            None \<Rightarrow> dl
          | Some v \<Rightarrow> Some v,
          case last_option (List.map_filter progress_of_value (field_values ''progress:'' ls)) of
            None \<Rightarrow> pr
          | Some p \<Rightarrow> Some p,
          body @ filter (\<lambda>l. \<not> is_roadmap_field l) ls)"
proof (induction ls arbitrary: st dl pr body)
  case Nil
  show ?case
    by (simp add: field_values_def last_option_def List.map_filter_simps)
next
  case (Cons l ls)
  consider (status) "is_field ''status:'' l"
    | (deadline) "\<not> is_field ''status:'' l" "is_field ''deadline:'' l"
    | (progress) "\<not> is_field ''status:'' l" "\<not> is_field ''deadline:'' l" "is_field ''progress:'' l"
    | (body) "\<not> is_roadmap_field l"
    by (auto simp: is_roadmap_field_def)
  then show ?case
  proof cases
    case status
    then have v: "item (split_colon l) 1 = Inr (tl (dropWhile (\<lambda>c. c \<noteq> CHR '':'') l))"
      by (rule field_line_value) simp
    have fv: "field_values ''status:'' (l # ls) = field_value l # field_values ''status:'' ls"
      "field_values ''deadline:'' (l # ls) = field_values ''deadline:'' ls"
      "field_values ''progress:'' (l # ls) = field_values ''progress:'' ls"
      using status field_exclusive by (simp_all add: field_values_def)
    from status have sw: "startswith (lower l) ''status:''"
      by (simp add: is_field_def)
    from status have rf: "is_roadmap_field l"
      by (simp add: is_roadmap_field_def)
    show ?thesis
      unfolding fv last_option_filter_Cons
      using sw v rf Cons.IH
      by (simp add: field_value_def Let_def split: option.splits)
  next
    case deadline
    from deadline(2) have v: "item (split_colon l) 1 = Inr (tl (dropWhile (\<lambda>c. c \<noteq> CHR '':'') l))"
      by (rule field_line_value) simp
    have fv: "field_values ''status:'' (l # ls) = field_values ''status:'' ls"
      "field_values ''deadline:'' (l # ls) = field_value l # field_values ''deadline:'' ls"
      "field_values ''progress:'' (l # ls) = field_values ''progress:'' ls"
      using deadline field_exclusive by (simp_all add: field_values_def)
    from deadline have sw: "\<not> startswith (lower l) ''status:''" "startswith (lower l) ''deadline:''"
      by (simp_all add: is_field_def)
    from deadline have rf: "is_roadmap_field l"
      by (simp add: is_roadmap_field_def)
    show ?thesis
      unfolding fv last_option_filter_Cons
      using sw v rf Cons.IH
      by (simp add: field_value_def Let_def split: option.splits)
  next
    case progress
    from progress(3) have v: "item (split_colon l) 1 = Inr (tl (dropWhile (\<lambda>c. c \<noteq> CHR '':'') l))"
      by (rule field_line_value) simp
    have fv: "field_values ''status:'' (l # ls) = field_values ''status:'' ls"
      "field_values ''deadline:'' (l # ls) = field_values ''deadline:'' ls"
      "field_values ''progress:'' (l # ls) = field_value l # field_values ''progress:'' ls"
      using progress by (simp_all add: field_values_def)
    from progress have sw: "\<not> startswith (lower l) ''status:''"
      "\<not> startswith (lower l) ''deadline:''" "startswith (lower l) ''progress:''"
      by (simp_all add: is_field_def)
    from progress have rf: "is_roadmap_field l"
      by (simp add: is_roadmap_field_def)
    show ?thesis
      unfolding fv last_option_map_filter_Cons
      using sw v rf Cons.IH
      by (simp add: field_value_def Let_def progress_update_eq split: option.splits)
  next
    case body
    then have nf: "\<not> is_field ''status:'' l" "\<not> is_field ''deadline:'' l"
      "\<not> is_field ''progress:'' l"
      by (simp_all add: is_roadmap_field_def)
    then have fv: "field_values ''status:'' (l # ls) = field_values ''status:'' ls"
      "field_values ''deadline:'' (l # ls) = field_values ''deadline:'' ls"
      "field_values ''progress:'' (l # ls) = field_values ''progress:'' ls"
      by (simp_all add: field_values_def)
    from nf have sw: "\<not> startswith (lower l) ''status:''"
      "\<not> startswith (lower l) ''deadline:''" "\<not> startswith (lower l) ''progress:''"
      by (simp_all add: is_field_def)
    show ?thesis
      unfolding fv using sw body Cons.IH by simp
  qed
qed

lemma parse_markdown_eq:
  "parse_markdown e t =
     Inr (title_of (doc_lines t),
          extract_excerpt (strip (join_nl (post_body_lines t))),
          markdown e (strip (join_nl (title_line t @ post_body_lines t))),
          case last_option (filter (\<lambda>v. v \<noteq> []) (field_values ''date:'' (scanned_lines t))) of
            None \<Rightarrow> None
          | Some v \<Rightarrow> fromisoformat e v)"
  by (simp add: parse_markdown_def scan_post_eq doc_lines_def [symmetric] Let_def
      scanned_lines_def [symmetric] post_body_lines_def [symmetric] title_line_def [symmetric])

lemma parse_roadmap_entry_eq:
  "parse_roadmap_entry e t =
     Inr (title_of (doc_lines t),
          case last_option (filter (\<lambda>v. v \<noteq> []) (field_values ''status:'' (scanned_lines t))) of
            None \<Rightarrow> ''Now''
          | Some v \<Rightarrow> v,
          markdown e (strip (join_nl (roadmap_body_lines t))),
          last_option (filter (\<lambda>v. v \<noteq> []) (field_values ''deadline:'' (scanned_lines t))),
          last_option (List.map_filter progress_of_value (field_values ''progress:'' (scanned_lines t))),
          extract_excerpt (strip (join_nl (roadmap_body_lines t))))"
proof -
  have dl: "(case x of None \<Rightarrow> None | Some v \<Rightarrow> Some v) = x" for x :: "string option"
    by (cases x) simp_all
  have pr: "(case y of None \<Rightarrow> None | Some v \<Rightarrow> Some v) = y" for y :: "int option"
    by (cases y) simp_all
  show ?thesis
    by (simp add: parse_roadmap_entry_def scan_roadmap_eq doc_lines_def [symmetric] Let_def
        scanned_lines_def [symmetric] roadmap_body_lines_def [symmetric] dl pr)
qed

section \<open>Sorting and loading\<close>

lemma map_err_Inr_iff:
  "map_err f xs = Inr ys \<longleftrightarrow> list_all2 (\<lambda>x y. f x = Inr y) xs ys"
proof (induction xs arbitrary: ys)
  case Nil
  show ?case by auto
next
  case (Cons x xs)
  show ?case
    by (cases ys) (auto simp: Cons.IH [symmetric] split: sum.splits)
qed

lemma map_err_length: "map_err f xs = Inr ys \<Longrightarrow> length ys = length xs"
  by (simp add: map_err_Inr_iff list_all2_lengthD)

lemma map_err_total:
  assumes "\<And>x. x \<in> set xs \<Longrightarrow> \<exists>y. f x = Inr y \<and> P x y"
  shows "\<exists>ys. map_err f xs = Inr ys \<and> list_all2 P xs ys"
  using assms
proof (induction xs)
  case Nil
  show ?case by simp
next
  case (Cons x xs)
  from Cons.prems obtain y where y: "f x = Inr y" "P x y"
    by auto
  from Cons obtain ys where ys: "map_err f xs = Inr ys" "list_all2 P xs ys"
    by auto
  from y ys show ?case
    by simp
qed

lemma list_sort_Inr:
  assumes "list_sort f xs = Inr ys"
  obtains ks where "map_err f xs = Inr ks" and "ys = map snd (sort_key fst (zip ks xs))"
  using assms by (auto simp: list_sort_def split: sum.splits)

lemma mset_sorted_zip:
  assumes "length ks = length xs"
  shows "mset (map snd (sort_key fst (zip ks xs))) = mset xs"
proof -
  have "mset (map snd (sort_key fst (zip ks xs))) = image_mset snd (mset (zip ks xs))"
    by simp
  also have "\<dots> = mset (map snd (zip ks xs))"
    by simp
  also from assms have "\<dots> = mset xs"
    by simp
  finally show ?thesis .
qed

lemma list_sort_mset:
  assumes "list_sort f xs = Inr ys"
  shows "mset ys = mset xs"
proof -
  from assms obtain ks where ks: "map_err f xs = Inr ks"
    and ys: "ys = map snd (sort_key fst (zip ks xs))"
    by (rule list_sort_Inr)
  from ks have "length ks = length xs"
    by (rule map_err_length)
  then show ?thesis
    unfolding ys by (rule mset_sorted_zip)
qed

lemma list_sort_total:
  assumes "\<And>x. x \<in> set xs \<Longrightarrow> \<exists>k. f x = Inr k"
  shows "\<exists>ys. list_sort f xs = Inr ys \<and> mset ys = mset xs"
proof -
  from assms have "\<exists>ks. map_err f xs = Inr ks \<and> list_all2 (\<lambda>x k. True) xs ks"
    by (intro map_err_total) simp
  then obtain ks where "map_err f xs = Inr ks"
    by blast
  then have "list_sort f xs = Inr (map snd (sort_key fst (zip ks xs)))"
    by (simp add: list_sort_def)
  then show ?thesis
    using list_sort_mset by blast
qed

lemma status_class_of_cases:
  "status_class_of st =
     (if lower (strip st) = ''next'' then ''status-next''
      else if lower (strip st) = ''later'' then ''status-later''
      else if lower (strip st) = ''done'' then ''status-done''
      else ''status-now'')"
  by (simp add: status_class_of_def)

lemma build_post_eq:
  "\<exists>p. build_post e f = Inr p \<and> Post.updated_at p = mtime f \<and> Post.slug p = stem (fname f)"
  by (simp add: build_post_def parse_markdown_eq)

lemma build_entry_eq:
  "\<exists>x. build_entry e f = Inr x \<and> updated_at x = mtime f \<and> slug x = stem (fname f)
     \<and> status_class x = status_class_of (status x)
     \<and> deadline x = last_option (filter (\<lambda>v. v \<noteq> [])
          (field_values ''deadline:'' (scanned_lines (content f))))"
proof -
  have "status_class_of ''Now'' = status_class_of []"
    by code_simp
  then show ?thesis
    by (simp add: build_entry_def parse_roadmap_entry_eq)
qed

lemma list_all2_in_right:
  "list_all2 P xs ys \<Longrightarrow> y \<in> set ys \<Longrightarrow> \<exists>x\<in>set xs. P x y"
  by (induction rule: list_all2_induct) auto

lemma load_roadmap_entries:
  assumes "load_roadmap e clock files = Inr entries" and "x \<in> set entries"
  shows "\<exists>f\<in>set files. build_entry e f = Inr x"
proof -
  from assms(1) obtain built sorted_pairs
    where built: "map_err (build_entry e) (sort_key fname files) = Inr built"
      and srt: "list_sort (\<lambda>(i, entry). roadmap_sort_key e (clock i) entry)
                  (enumerate 0 built) = Inr sorted_pairs"
      and res: "entries = map snd sorted_pairs"
    by (auto simp: load_roadmap_def split: sum.splits)
  from srt have "mset sorted_pairs = mset (enumerate 0 built)"
    by (rule list_sort_mset)
  then have "mset (map snd sorted_pairs) = mset (map snd (enumerate 0 built))"
    by (metis mset_map)
  then have "mset entries = mset built"
    by (simp only: res map_snd_enumerate)
  with assms(2) have "x \<in> set built"
    by (metis set_mset_mset)
  moreover from built have "list_all2 (\<lambda>f y. build_entry e f = Inr y) (sort_key fname files) built"
    by (simp add: map_err_Inr_iff)
  ultimately have "\<exists>f\<in>set (sort_key fname files). build_entry e f = Inr x"
    by (rule list_all2_in_right [rotated])
  then show ?thesis
    by simp
qed

lemma list_all2_map_eq:
  "list_all2 (\<lambda>x y. g y = h x) xs ys \<Longrightarrow> map g ys = map h xs"
  by (induction rule: list_all2_induct) auto

lemma naive_key_inj: "naive_key a = naive_key b \<longleftrightarrow> a = b"
  by (cases a; cases b) (auto simp: naive_key_def)

lemma list_sort_reverse_mset: "mset (list_sort_reverse f xs) = mset xs"
  by (simp add: list_sort_reverse_def)

lemma list_sort_reverse_sorted:
  "sorted_wrt (\<lambda>a b. f b \<le> f a) (list_sort_reverse f xs)"
proof -
  have "sorted (map f (sort_key f (rev xs)))"
    by (rule sorted_sort_key)
  then have "sorted_wrt (\<lambda>a b. f a \<le> f b) (sort_key f (rev xs))"
    by (simp add: sorted_map)
  then show ?thesis
    by (simp add: list_sort_reverse_def sorted_wrt_rev)
qed

lemma list_sort_reverse_stable:
  "filter (\<lambda>x. f x = k) (list_sort_reverse f xs) = filter (\<lambda>x. f x = k) xs"
proof -
  have "filter (\<lambda>x. f x = k) (rev (sort_key f (rev xs)))
      = rev (filter (\<lambda>x. f x = k) (sort_key f (rev xs)))"
    by (simp add: rev_filter)
  also have "\<dots> = rev (filter (\<lambda>x. f x = k) (rev xs))"
    by (simp only: sort_key_stable)
  also have "\<dots> = filter (\<lambda>x. f x = k) xs"
    by (simp add: rev_filter)
  finally show ?thesis
    by (simp add: list_sort_reverse_def)
qed

lemma map_filter_drop_None:
  "List.map_filter f (filter (\<lambda>w. f w \<noteq> None) vs) = List.map_filter f vs"
  by (induction vs) (auto simp: List.map_filter_simps split: option.splits)

lemma roadmap_sort_key_no_deadline:
  assumes "parse_deadline e (deadline x) = None"
  shows "roadmap_sort_key e now x =
     (case local_timestamp e (updated_at x) of
        Inl err \<Rightarrow> Inl err
      | Inr ts \<Rightarrow> Inr (status_rank (status x), 1, PosInf, - ts))"
  using assms by (simp add: roadmap_sort_key_def)

lemma homepage_sort_key_no_deadline:
  assumes "parse_deadline e (deadline x) = None"
  shows "homepage_sort_key e x =
     Inr (- (case progress x of Some p \<Rightarrow> p | None \<Rightarrow> - 1), 1, PosInf)"
  using assms by (simp add: homepage_sort_key_def)

lemma load_roadmap_total:
  assumes "\<And>g y now. g \<in> set files \<Longrightarrow> build_entry e g = Inr y \<Longrightarrow>
             \<exists>k. roadmap_sort_key e now y = Inr k"
  shows "\<exists>entries. load_roadmap e clock files = Inr entries \<and> length entries = length files"
proof -
  let ?fs = "sort_key fname files"
  let ?key = "\<lambda>(i, entry). roadmap_sort_key e (clock i) entry"
  have "\<exists>built. map_err (build_entry e) ?fs = Inr built
      \<and> list_all2 (\<lambda>f y. build_entry e f = Inr y) ?fs built"
    by (rule map_err_total) (use build_entry_eq in blast)
  then obtain built where b: "map_err (build_entry e) ?fs = Inr built"
    and l: "list_all2 (\<lambda>f y. build_entry e f = Inr y) ?fs built"
    by blast
  have "\<exists>k. ?key p = Inr k" if "p \<in> set (enumerate 0 built)" for p
  proof -
    obtain i y where p: "p = (i, y)"
      by (cases p)
    with that have "y \<in> set built"
      by (auto simp: in_set_enumerate_eq)
    with l have "\<exists>g\<in>set ?fs. build_entry e g = Inr y"
      by (rule list_all2_in_right)
    then obtain g where "g \<in> set files" and "build_entry e g = Inr y"
      by auto
    then obtain k where "roadmap_sort_key e (clock i) y = Inr k"
      using assms by blast
    then show ?thesis
      unfolding p by (metis case_prod_conv)
  qed
  then have "\<exists>ys. list_sort ?key (enumerate 0 built) = Inr ys
      \<and> mset ys = mset (enumerate 0 built)"
    by (rule list_sort_total)
  then obtain ys where ys: "list_sort ?key (enumerate 0 built) = Inr ys"
    and m: "mset ys = mset (enumerate 0 built)"
    by blast
  from m have "size (mset ys) = size (mset (enumerate 0 built))"
    by simp
  then have "length ys = length built"
    by simp
  moreover from b have "length built = length files"
    by (simp add: map_err_length)
  moreover from b ys have "load_roadmap e clock files = Inr (map snd ys)"
    by (simp add: load_roadmap_def)
  ultimately show ?thesis
    by simp
qed

text \<open>
  Where every sort key is computed, the two rankings are the stable sorts by their keys:
  the selection for the home page is the first three of the candidates in key order, the
  roadmap is in the order of the keys computed at each entry's own clock reading, and an
  entry of a lower status rank has the smaller key whatever the deadlines are.
\<close>

lemma map_err_zip:
  assumes "map_err f xs = Inr ks" and "p \<in> set (zip ks xs)"
  shows "f (snd p) = Inr (fst p)"
proof -
  from assms(1) have "list_all2 (\<lambda>x k. f x = Inr k) xs ks"
    by (simp add: map_err_Inr_iff)
  with assms(2) show ?thesis
    by (auto simp: list_all2_conv_all_nth in_set_zip)
qed

lemma list_sort_sorted:
  assumes "list_sort f xs = Inr ys"
  shows "sorted_wrt (\<lambda>a b. \<forall>ka kb. f a = Inr ka \<longrightarrow> f b = Inr kb \<longrightarrow> ka \<le> kb) ys"
proof -
  from assms obtain ks where ks: "map_err f xs = Inr ks"
    and ys: "ys = map snd (sort_key fst (zip ks xs))"
    by (rule list_sort_Inr)
  let ?zs = "sort_key fst (zip ks xs)"
  have "sorted (map fst ?zs)"
    by (rule sorted_sort_key)
  then have s: "sorted_wrt (\<lambda>p q. fst p \<le> fst q) ?zs"
    by (simp add: sorted_map)
  have k: "f (snd p) = Inr (fst p)" if "p \<in> set ?zs" for p
    using that map_err_zip [OF ks] by simp
  have "sorted_wrt (\<lambda>p q. \<forall>ka kb. f (snd p) = Inr ka \<longrightarrow> f (snd q) = Inr kb \<longrightarrow> ka \<le> kb) ?zs"
    using s by (rule sorted_wrt_mono_rel [rotated]) (auto simp: k)
  then show ?thesis
    by (simp add: ys sorted_wrt_map)
qed

lemma select_homepage_entries_sorted:
  assumes "select_homepage_entries e entries = Inr r"
  shows "\<exists>candidates. r = take 3 candidates
    \<and> mset candidates = mset (filter eligible entries)
    \<and> sorted_wrt (\<lambda>a b. \<forall>ka kb. homepage_sort_key e a = Inr ka \<longrightarrow>
          homepage_sort_key e b = Inr kb \<longrightarrow> ka \<le> kb) candidates"
proof -
  from assms obtain cs where cs: "list_sort (homepage_sort_key e) (filter eligible entries) = Inr cs"
    and r: "r = take 3 cs"
    by (auto simp: select_homepage_entries_def split: sum.splits)
  from cs have "mset cs = mset (filter eligible entries)"
    by (rule list_sort_mset)
  with r list_sort_sorted [OF cs] show ?thesis
    by blast
qed

lemma homepage_key_order:
  assumes "homepage_sort_key e a = Inr ka" and "homepage_sort_key e b = Inr kb"
    and "progress a = Some pa" and "progress b = Some pb"
  shows "ka \<le> kb \<longleftrightarrow>
     pb < pa \<or> (pa = pb \<and>
       (case (parse_deadline e (deadline a), parse_deadline e (deadline b)) of
          (None, None) \<Rightarrow> True
        | (None, Some db) \<Rightarrow> False
        | (Some da, None) \<Rightarrow> True
        | (Some da, Some db) \<Rightarrow>
            (\<exists>ta tb. timestamp e da = Inr ta \<and> timestamp e db = Inr tb \<and> ta \<le> tb)))"
  using assms
  by (auto simp: homepage_sort_key_def less_eq_prod_def less_pyfloat_def
      split: option.splits sum.splits)

lemma load_roadmap_sorted:
  assumes "load_roadmap e clock files = Inr r"
  shows "\<exists>built pairs.
      map_err (build_entry e) (sort_key fname files) = Inr built
    \<and> r = map snd pairs
    \<and> mset pairs = mset (enumerate 0 built)
    \<and> sorted_wrt (\<lambda>p q. \<forall>kp kq.
          roadmap_sort_key e (clock (fst p)) (snd p) = Inr kp \<longrightarrow>
          roadmap_sort_key e (clock (fst q)) (snd q) = Inr kq \<longrightarrow> kp \<le> kq) pairs"
proof -
  let ?key = "\<lambda>(i, entry). roadmap_sort_key e (clock i) entry"
  from assms obtain built pairs
    where built: "map_err (build_entry e) (sort_key fname files) = Inr built"
      and srt: "list_sort ?key (enumerate 0 built) = Inr pairs"
      and res: "r = map snd pairs"
    by (auto simp: load_roadmap_def split: sum.splits)
  from srt have m: "mset pairs = mset (enumerate 0 built)"
    by (rule list_sort_mset)
  from list_sort_sorted [OF srt]
  have "sorted_wrt (\<lambda>p q. \<forall>kp kq.
          roadmap_sort_key e (clock (fst p)) (snd p) = Inr kp \<longrightarrow>
          roadmap_sort_key e (clock (fst q)) (snd q) = Inr kq \<longrightarrow> kp \<le> kq) pairs"
    by (simp add: case_prod_beta)
  with built res m show ?thesis
    by blast
qed

lemma status_rank_dominates:
  assumes "roadmap_sort_key e now_a a = Inr ka" and "roadmap_sort_key e now_b b = Inr kb"
    and "status_rank (status a) < status_rank (status b)"
  shows "ka < kb"
  using assms
  by (auto simp: roadmap_sort_key_def Let_def less_prod_def split: option.splits sum.splits)

lemma status_rank_cases:
  "status_rank st =
     (if lower (strip st) = ''next'' then 1
      else if lower (strip st) = ''later'' then 2
      else if lower (strip st) = ''done'' then 3
      else 0)"
  by (simp add: status_rank_def)

section \<open>Properties\<close>

text \<open>
  C8. For every document, the text handed to the markdown renderer for \<open>content_html\<close> is,
  for a post, the title line (when there is one) followed by the lines of the body that
  are no \<^verbatim>\<open>date\<close> field lines, joined and stripped; for a roadmap entry it is the lines of
  the body that are no field lines, joined and stripped, without the title line. Neither
  parser raises.
\<close>

theorem content_html_title_asymmetry:
  "(\<exists>ttl exc pub. parse_markdown e t =
       Inr (ttl, exc, markdown e (strip (join_nl (title_line t @ post_body_lines t))), pub))
   \<and> (\<exists>ttl st dl pr exc. parse_roadmap_entry e t =
       Inr (ttl, st, markdown e (strip (join_nl (roadmap_body_lines t))), dl, pr, exc))"
  by (simp add: parse_markdown_eq parse_roadmap_entry_eq)

theorem content_html_title_asymmetry_witness:
  "parse_markdown cpython_utc ''# Hello \<newline>Date: 2024-01-01\<newline>Para one.''
   = Inr (''Hello'', ''Para one.'', ''# Hello\<newline>Para one.'',
          Some (Naive \<lparr>year = 2024, month = 1, day = 1, hour = 0, minute = 0, second = 0,
                       microsecond = 0\<rparr>))
   \<and> parse_roadmap_entry cpython_utc ''# Hello \<newline>Status: next\<newline>Para one.''
   = Inr (''Hello'', ''next'', ''Para one.'', None, None, ''Para one.'')
   \<and> strip (join_nl (title_line ''# Hello \<newline>Date: 2024-01-01\<newline>Para one.''
        @ post_body_lines ''# Hello \<newline>Date: 2024-01-01\<newline>Para one.''))
     = ''# Hello\<newline>Para one.''
   \<and> strip (join_nl (roadmap_body_lines ''# Hello \<newline>Status: next\<newline>Para one.''))
     = ''Para one.''"
proof -
  let ?p = "''# Hello \<newline>Date: 2024-01-01\<newline>Para one.''"
  let ?r = "''# Hello \<newline>Status: next\<newline>Para one.''"
  have h1: "parse_markdown cpython_utc ?p
     = Inr (''Hello'', ''Para one.'', ''# Hello\<newline>Para one.'',
          Some (Naive \<lparr>year = 2024, month = 1, day = 1, hour = 0, minute = 0, second = 0,
                       microsecond = 0\<rparr>))"
    by code_simp
  have h2: "parse_roadmap_entry cpython_utc ?r
     = Inr (''Hello'', ''next'', ''Para one.'', None, None, ''Para one.'')"
    by code_simp
  have m: "markdown cpython_utc s = s" for s
    by (simp add: cpython_utc_def)
  from content_html_title_asymmetry [of cpython_utc ?p, THEN conjunct1]
  obtain ttl exc pub where "parse_markdown cpython_utc ?p =
      Inr (ttl, exc, markdown cpython_utc (strip (join_nl (title_line ?p @ post_body_lines ?p))), pub)"
    by blast
  with h1 have a: "strip (join_nl (title_line ?p @ post_body_lines ?p)) = ''# Hello\<newline>Para one.''"
    by (simp add: m)
  from content_html_title_asymmetry [of cpython_utc ?r, THEN conjunct2]
  obtain ttl st dl pr exc where "parse_roadmap_entry cpython_utc ?r =
      Inr (ttl, st, markdown cpython_utc (strip (join_nl (roadmap_body_lines ?r))), dl, pr, exc)"
    by blast
  with h2 have b: "strip (join_nl (roadmap_body_lines ?r)) = ''Para one.''"
    by (simp add: m)
  from h1 h2 a b show ?thesis
    by (intro conjI)
qed

text \<open>
  C10. When several field lines have the same key, a later line overrides an earlier one,
  by a rule of its field: \<open>status\<close> and \<open>deadline\<close> are the last non-empty value (an empty
  value changes nothing), with the defaults \<^verbatim>\<open>"Now"\<close> and absent; \<open>progress\<close> is the last
  value that is an integer from 0 to 100; \<open>published_at\<close> of a post is what
  \<open>fromisoformat\<close> makes of the last non-empty \<^verbatim>\<open>date\<close> value, so it is absent when that
  value does not parse, whatever an earlier line held.
\<close>

theorem later_field_lines_override:
  "(\<exists>ttl html exc. parse_roadmap_entry e t =
       Inr (ttl,
            case last_option (filter (\<lambda>v. v \<noteq> []) (field_values ''status:'' (scanned_lines t))) of
              None \<Rightarrow> ''Now''
            | Some v \<Rightarrow> v,
            html,
            last_option (filter (\<lambda>v. v \<noteq> []) (field_values ''deadline:'' (scanned_lines t))),
            last_option (List.map_filter progress_of_value
              (field_values ''progress:'' (scanned_lines t))),
            exc))
   \<and> (\<exists>ttl exc html. parse_markdown e t =
       Inr (ttl, exc, html,
            case last_option (filter (\<lambda>v. v \<noteq> []) (field_values ''date:'' (scanned_lines t))) of
              None \<Rightarrow> None
            | Some v \<Rightarrow> fromisoformat e v))"
  by (simp add: parse_markdown_eq parse_roadmap_entry_eq)

theorem later_field_lines_override_witness:
  "parse_roadmap_entry cpython_utc
     ''status: next\<newline>progress: 40\<newline>deadline: 2025-01-01\<newline>Status:\<newline>progress: 140\<newline>deadline: soon''
   = Inr (''Untitled'', ''next'', [], Some ''soon'', Some 40, [])
   \<and> parse_markdown cpython_utc ''date: 2024-01-01\<newline>date: tomorrow''
   = Inr (''Untitled'', [], [], None)
   \<and> last_option (List.map_filter progress_of_value (field_values ''progress:'' (scanned_lines
         ''status: next\<newline>progress: 40\<newline>deadline: 2025-01-01\<newline>Status:\<newline>progress: 140\<newline>deadline: soon'')))
     = Some 40
   \<and> (case last_option (filter (\<lambda>v. v \<noteq> [])
         (field_values ''date:'' (scanned_lines ''date: 2024-01-01\<newline>date: tomorrow''))) of
         None \<Rightarrow> None
       | Some v \<Rightarrow> fromisoformat cpython_utc v) = None"
proof -
  let ?r = "''status: next\<newline>progress: 40\<newline>deadline: 2025-01-01\<newline>Status:\<newline>progress: 140\<newline>deadline: soon''"
  let ?p = "''date: 2024-01-01\<newline>date: tomorrow''"
  have h1: "parse_roadmap_entry cpython_utc ?r
      = Inr (''Untitled'', ''next'', [], Some ''soon'', Some 40, [])"
    by code_simp
  have h2: "parse_markdown cpython_utc ?p = Inr (''Untitled'', [], [], None)"
    by code_simp
  from later_field_lines_override [of cpython_utc ?r, THEN conjunct1]
  obtain ttl html exc where "parse_roadmap_entry cpython_utc ?r =
       Inr (ttl,
            case last_option (filter (\<lambda>v. v \<noteq> []) (field_values ''status:'' (scanned_lines ?r))) of
              None \<Rightarrow> ''Now''
            | Some v \<Rightarrow> v,
            html,
            last_option (filter (\<lambda>v. v \<noteq> []) (field_values ''deadline:'' (scanned_lines ?r))),
            last_option (List.map_filter progress_of_value
              (field_values ''progress:'' (scanned_lines ?r))),
            exc)"
    by blast
  with h1 have a: "last_option (List.map_filter progress_of_value
      (field_values ''progress:'' (scanned_lines ?r))) = Some 40"
    by simp
  from later_field_lines_override [of cpython_utc ?p, THEN conjunct2]
  obtain ttl exc html where "parse_markdown cpython_utc ?p =
       Inr (ttl, exc, html,
            case last_option (filter (\<lambda>v. v \<noteq> []) (field_values ''date:'' (scanned_lines ?p))) of
              None \<Rightarrow> None
            | Some v \<Rightarrow> fromisoformat cpython_utc v)"
    by blast
  with h2 have b: "(case last_option (filter (\<lambda>v. v \<noteq> [])
         (field_values ''date:'' (scanned_lines ?p))) of
         None \<Rightarrow> None
       | Some v \<Rightarrow> fromisoformat cpython_utc v) = None"
    by simp
  from h1 h2 a b show ?thesis
    by (intro conjI)
qed

lemma last_option_map_filter_Some:
  assumes "last_option (List.map_filter f xs) = Some y"
  shows "\<exists>x\<in>set xs. f x = Some y"
proof -
  from assms have "y \<in> set (List.map_filter f xs)"
    by (auto simp: last_option_def split: if_splits)
  then show ?thesis
    by (auto simp: List.map_filter_def)
qed

lemma progress_of_value_range:
  assumes "progress_of_value v = Some p"
  shows "0 \<le> p \<and> p \<le> 100 \<and> py_int (rstrip_percent v) = Some p"
  using assms by (auto simp: progress_of_value_def split: option.splits if_splits)

text \<open>
  C3, as amended. The progress of a roadmap document is the contribution of its last
  progress line that contributes one, and a line contributes a value only when its value,
  with white space around it and all trailing percent signs removed, is read by
  \<^verbatim>\<open>int\<close> as an integer from 0 to 100. A progress that is present therefore lies in that
  range and is such a value of one of the progress lines; nothing is clamped. The values
  \<^verbatim>\<open>105\<close>, \<^verbatim>\<open>-1\<close> and \<^verbatim>\<open>abc\<close> give no progress, and \<^verbatim>\<open>50%\<close> gives 50.
\<close>

theorem progress_present_only_in_range:
  assumes "parse_roadmap_entry e t = Inr (ttl, st, html, dl, pr, exc)"
  shows "pr = last_option (List.map_filter progress_of_value
               (field_values ''progress:'' (scanned_lines t)))
    \<and> (\<forall>p. pr = Some p \<longrightarrow>
          0 \<le> p \<and> p \<le> 100
          \<and> (\<exists>v\<in>set (field_values ''progress:'' (scanned_lines t)).
                py_int (rstrip_percent v) = Some p))
    \<and> (\<exists>ttl st html dl exc. parse_roadmap_entry e ''progress: 105'' =
          Inr (ttl, st, html, dl, None, exc))
    \<and> (\<exists>ttl st html dl exc. parse_roadmap_entry e ''progress: -1'' =
          Inr (ttl, st, html, dl, None, exc))
    \<and> (\<exists>ttl st html dl exc. parse_roadmap_entry e ''progress: abc'' =
          Inr (ttl, st, html, dl, None, exc))
    \<and> (\<exists>ttl st html dl exc. parse_roadmap_entry e ''progress: 50%'' =
          Inr (ttl, st, html, dl, Some 50, exc))"
proof -
  let ?vs = "field_values ''progress:'' (scanned_lines t)"
  from assms have pr: "pr = last_option (List.map_filter progress_of_value ?vs)"
    by (simp add: parse_roadmap_entry_eq)
  have bound: "0 \<le> p \<and> p \<le> 100 \<and> (\<exists>v\<in>set ?vs. py_int (rstrip_percent v) = Some p)"
    if "pr = Some p" for p
  proof -
    from that pr obtain v where "v \<in> set ?vs" and "progress_of_value v = Some p"
      using last_option_map_filter_Some [of progress_of_value ?vs p] by auto
    then show ?thesis
      using progress_of_value_range by blast
  qed
  have a: "last_option (List.map_filter progress_of_value
      (field_values ''progress:'' (scanned_lines ''progress: 105''))) = None"
    by code_simp
  have b: "last_option (List.map_filter progress_of_value
      (field_values ''progress:'' (scanned_lines ''progress: -1''))) = None"
    by code_simp
  have c: "last_option (List.map_filter progress_of_value
      (field_values ''progress:'' (scanned_lines ''progress: abc''))) = None"
    by code_simp
  have d: "last_option (List.map_filter progress_of_value
      (field_values ''progress:'' (scanned_lines ''progress: 50%''))) = Some 50"
    by code_simp
  show ?thesis
    using pr bound by (simp add: parse_roadmap_entry_eq a b c d)
qed

theorem progress_present_only_in_range_witness:
  "parse_roadmap_entry cpython_utc ''progress: 7_5 %%'' =
     Inr (''Untitled'', ''Now'', [], None, Some 75, [])
   \<and> (\<exists>v\<in>set (field_values ''progress:'' (scanned_lines ''progress: 7_5 %%'')).
         py_int (rstrip_percent v) = Some 75)"
proof -
  have h: "parse_roadmap_entry cpython_utc ''progress: 7_5 %%'' =
      Inr (''Untitled'', ''Now'', [], None, Some 75, [])"
    by code_simp
  note t = progress_present_only_in_range [OF h, THEN conjunct2, THEN conjunct1]
  from t [rule_format, OF refl] show ?thesis
    using h by simp
qed

text \<open>
  The claim as it was stated strips one trailing percent sign. The value \<^verbatim>\<open>50%%\<close> then
  is no integer, but the parser, which strips all of them, gives the progress 50.
\<close>

theorem progress_single_percent_counterexample:
  "parse_roadmap_entry cpython_utc ''progress: 50%%'' =
     Inr (''Untitled'', ''Now'', [], None, Some 50, [])
   \<and> spec_progress_of_value ''50%%'' = None"
  by code_simp

lemma first_paragraph_find:
  "first_paragraph ps =
     (case find (\<lambda>p. strip p \<noteq> []) ps of None \<Rightarrow> [] | Some p \<Rightarrow> replace_nl (strip p))"
  by (induction ps) (simp_all add: Let_def)

lemma strip_all_space:
  assumes "list_all is_space s"
  shows "strip s = []"
proof -
  from assms have d: "dropWhile is_space s = []"
    by (induction s) simp_all
  show ?thesis
    by (simp only: strip_def lstrip_def rstrip_def d rev.simps dropWhile.simps)
qed

lemma split_blank_from_chars:
  "p \<in> set (split_blank_from cur s) \<Longrightarrow> set p \<subseteq> set cur \<union> set s"
proof (induction cur s rule: split_blank_from.induct)
  case (1 cur)
  then show ?case by simp
next
  case (2 cur c)
  then show ?case by auto
next
  case (3 cur c d cs)
  then show ?case
    by (auto split: if_splits)
qed

lemma find_None_all_space:
  assumes "list_all is_space body"
  shows "find (\<lambda>p. strip p \<noteq> []) (split_blank body) = None"
proof -
  have "strip p = []" if "p \<in> set (split_blank body)" for p
  proof -
    from that have "set p \<subseteq> set body"
      using split_blank_from_chars [of p "[]" body] by (simp add: split_blank_def)
    with assms have "list_all is_space p"
      by (auto simp: list_all_iff)
    then show ?thesis
      by (rule strip_all_space)
  qed
  then show ?thesis
    by (simp add: find_None_iff)
qed

text \<open>
  C9. The excerpt of a body text is the first of its pieces between blank-line boundaries
  that is not empty after trimming, trimmed and with every line feed replaced by a space,
  and the empty string when there is no such piece. The function is total. The body
  \<^verbatim>\<open>"Para one.\n\nPara two."\<close> gives \<^verbatim>\<open>"Para one."\<close>, and a body of white space only gives
  the empty string.
\<close>

theorem extract_excerpt_first_paragraph:
  "extract_excerpt body =
     (case find (\<lambda>p. strip p \<noteq> []) (split_blank body) of
        None \<Rightarrow> []
      | Some p \<Rightarrow> replace_nl (strip p))
   \<and> extract_excerpt (''Para one.'' @ [CHR 0x0A, CHR 0x0A] @ ''Para two.'') = ''Para one.''
   \<and> (list_all is_space body \<longrightarrow> extract_excerpt body = [])"
proof -
  have ex: "extract_excerpt (''Para one.'' @ [CHR 0x0A, CHR 0x0A] @ ''Para two.'') = ''Para one.''"
    by code_simp
  show ?thesis
    using ex by (simp add: extract_excerpt_def first_paragraph_find find_None_all_space)
qed

theorem extract_excerpt_first_paragraph_witness:
  "list_all is_space ('' '' @ [CHR 0x0A, CHR 0x0A, CHR 0x09] @ ''  '')
   \<and> extract_excerpt ('' '' @ [CHR 0x0A, CHR 0x0A, CHR 0x09] @ ''  '') = []
   \<and> extract_excerpt ([CHR 0x0A] @ ''  first'' @ [CHR 0x0A] @ ''line '' @ [CHR 0x0A, CHR 0x0A] @ ''second'')
       = ''first line''"
proof -
  have h: "list_all is_space ('' '' @ [CHR 0x0A, CHR 0x0A, CHR 0x09] @ ''  '')"
    by code_simp
  have v: "(case find (\<lambda>p. strip p \<noteq> [])
             (split_blank ([CHR 0x0A] @ ''  first'' @ [CHR 0x0A] @ ''line '' @ [CHR 0x0A, CHR 0x0A] @ ''second'')) of
              None \<Rightarrow> []
            | Some p \<Rightarrow> replace_nl (strip p)) = ''first line''"
    by code_simp
  note t1 = extract_excerpt_first_paragraph
    [of "'' '' @ [CHR 0x0A, CHR 0x0A, CHR 0x09] @ ''  ''", THEN conjunct2, THEN conjunct2]
  note t2 = extract_excerpt_first_paragraph
    [of "[CHR 0x0A] @ ''  first'' @ [CHR 0x0A] @ ''line '' @ [CHR 0x0A, CHR 0x0A] @ ''second''",
     THEN conjunct1]
  from t1 h have a: "extract_excerpt ('' '' @ [CHR 0x0A, CHR 0x0A, CHR 0x09] @ ''  '') = []"
    by (rule mp)
  from t2 v have b: "extract_excerpt
      ([CHR 0x0A] @ ''  first'' @ [CHR 0x0A] @ ''line '' @ [CHR 0x0A, CHR 0x0A] @ ''second'')
        = ''first line''"
    by (rule trans)
  from h a b show ?thesis
    by (intro conjI)
qed

text \<open>
  C5. Parsing a deadline returns no deadline when the string is absent or empty.
  Otherwise it tries \<open>fromisoformat\<close>, then the pattern \<^verbatim>\<open>%Y-%m-%d\<close>, then \<^verbatim>\<open>%Y/%m/%d\<close>, and
  returns the result of the first that accepts the string; when none does, the result is
  no deadline. The result is a value in every case, never an exception.
\<close>

theorem parse_deadline_first_success:
  "parse_deadline e dl =
     (case dl of
        None \<Rightarrow> None
      | Some s \<Rightarrow>
          if s = [] then None
          else (case fromisoformat e s of
                  Some dt \<Rightarrow> Some dt
                | None \<Rightarrow>
                    (case strptime_ymd CHR ''-'' s of
                       Some dt \<Rightarrow> Some dt
                     | None \<Rightarrow> strptime_ymd CHR ''/'' s)))"
  by (simp add: parse_deadline_def split: option.splits)

theorem parse_deadline_first_success_witness:
  "parse_deadline cpython_utc (Some ''2024-03-05T10:30:00'') =
     Some (Naive \<lparr>year = 2024, month = 3, day = 5, hour = 10, minute = 30, second = 0,
                  microsecond = 0\<rparr>)
   \<and> parse_deadline cpython_utc (Some ''2024-3-5'') =
     Some (Naive \<lparr>year = 2024, month = 3, day = 5, hour = 0, minute = 0, second = 0,
                  microsecond = 0\<rparr>)
   \<and> parse_deadline cpython_utc (Some ''2024/03/05'') =
     Some (Naive \<lparr>year = 2024, month = 3, day = 5, hour = 0, minute = 0, second = 0,
                  microsecond = 0\<rparr>)
   \<and> parse_deadline cpython_utc (Some ''next spring'') = None
   \<and> parse_deadline cpython_utc (Some []) = None
   \<and> parse_deadline cpython_utc None = None"
proof -
  let ?d = "Naive \<lparr>year = 2024, month = 3, day = 5, hour = 0, minute = 0, second = 0,
                  microsecond = 0\<rparr>"
  have a: "fromisoformat cpython_utc ''2024-03-05T10:30:00'' =
      Some (Naive \<lparr>year = 2024, month = 3, day = 5, hour = 10, minute = 30, second = 0,
                   microsecond = 0\<rparr>)"
    by code_simp
  have b: "fromisoformat cpython_utc ''2024-3-5'' = None"
    "strptime_ymd CHR ''-'' ''2024-3-5'' = Some ?d"
    by code_simp+
  have c: "fromisoformat cpython_utc ''2024/03/05'' = None"
    "strptime_ymd CHR ''-'' ''2024/03/05'' = None"
    "strptime_ymd CHR ''/'' ''2024/03/05'' = Some ?d"
    by code_simp+
  have d: "fromisoformat cpython_utc ''next spring'' = None"
    "strptime_ymd CHR ''-'' ''next spring'' = None"
    "strptime_ymd CHR ''/'' ''next spring'' = None"
    by code_simp+
  show ?thesis
    using parse_deadline_first_success [of cpython_utc "Some ''2024-03-05T10:30:00''"]
      parse_deadline_first_success [of cpython_utc "Some ''2024-3-5''"]
      parse_deadline_first_success [of cpython_utc "Some ''2024/03/05''"]
      parse_deadline_first_success [of cpython_utc "Some ''next spring''"]
      parse_deadline_first_success [of cpython_utc "Some []"]
      parse_deadline_first_success [of cpython_utc None]
    by (simp add: a b c d)
qed

text \<open>
  C7. The status class is one of the four classes for now, next, later and done, whatever
  the status text: it is the class of the stripped and lower-cased status, and every other
  text, as well as \<^verbatim>\<open>now\<close>, gives the class for now. Every entry that \<open>build_entry\<close>
  constructs, and so every entry that \<open>load_roadmap\<close> returns, holds the class of its own
  status.
\<close>

theorem status_class_known_category:
  "status_class_of st \<in> {''status-now'', ''status-next'', ''status-later'', ''status-done''}
   \<and> status_class_of st =
       (if lower (strip st) = ''next'' then ''status-next''
        else if lower (strip st) = ''later'' then ''status-later''
        else if lower (strip st) = ''done'' then ''status-done''
        else ''status-now'')
   \<and> (\<exists>x. build_entry e f = Inr x \<and> status_class x = status_class_of (status x))
   \<and> (load_roadmap e clock files = Inr entries \<longrightarrow>
        (\<forall>x\<in>set entries.
           status_class x = status_class_of (status x)
           \<and> status_class x \<in> {''status-now'', ''status-next'', ''status-later'', ''status-done''}))"
proof -
  have mem: "status_class_of s \<in> {''status-now'', ''status-next'', ''status-later'', ''status-done''}"
    for s
    by (simp add: status_class_of_cases)
  have built: "\<exists>x. build_entry e f = Inr x \<and> status_class x = status_class_of (status x)"
    using build_entry_eq [of e f] by blast
  have loaded: "status_class x = status_class_of (status x)"
    if "load_roadmap e clock files = Inr entries" and "x \<in> set entries" for x
  proof -
    from that obtain g where "build_entry e g = Inr x"
      using load_roadmap_entries by blast
    with build_entry_eq [of e g] show ?thesis
      by auto
  qed
  from mem [of st] status_class_of_cases [of st] built loaded mem show ?thesis
    by (intro conjI impI ballI) simp_all
qed


theorem status_class_known_category_witness:
  "load_roadmap cpython_utc
     (\<lambda>i. \<lparr>year = 2026, month = 1, day = 1, hour = 0, minute = 0, second = 0, microsecond = 0\<rparr>)
     [\<lparr>fname = ''b.md'', content = ''# B'' @ [CHR 0x0A] @ ''status:  DONE '' @ [CHR 0x0A] @ ''text'',
       mtime = \<lparr>year = 2025, month = 6, day = 1, hour = 12, minute = 0, second = 0,
                microsecond = 0\<rparr>\<rparr>]
   = Inr [\<lparr>slug = ''b'', title = ''B'', status = ''DONE'', status_class = ''status-done'',
            deadline = None, progress = None, excerpt = ''text'', content_html = ''text'',
            updated_at = \<lparr>year = 2025, month = 6, day = 1, hour = 12, minute = 0, second = 0,
                           microsecond = 0\<rparr>\<rparr>]
   \<and> status_class_of ''DONE'' = ''status-done''"
proof -
  let ?x = "\<lparr>slug = ''b'', title = ''B'', status = ''DONE'', status_class = ''status-done'',
            deadline = None, progress = None, excerpt = ''text'', content_html = ''text'',
            updated_at = \<lparr>year = 2025, month = 6, day = 1, hour = 12, minute = 0, second = 0,
                           microsecond = 0\<rparr>\<rparr>"
  have h: "load_roadmap cpython_utc
     (\<lambda>i. \<lparr>year = 2026, month = 1, day = 1, hour = 0, minute = 0, second = 0, microsecond = 0\<rparr>)
     [\<lparr>fname = ''b.md'', content = ''# B'' @ [CHR 0x0A] @ ''status:  DONE '' @ [CHR 0x0A] @ ''text'',
       mtime = \<lparr>year = 2025, month = 6, day = 1, hour = 12, minute = 0, second = 0,
                microsecond = 0\<rparr>\<rparr>]
   = Inr [?x]"
    by code_simp
  have m: "?x \<in> set [?x]"
    by simp
  note t = status_class_known_category
    [THEN conjunct2, THEN conjunct2, THEN conjunct2, rule_format, OF h m, THEN conjunct1]
  from t have "status_class_of ''DONE'' = ''status-done''"
    by simp
  with h show ?thesis
    by (intro conjI)
qed

text \<open>
  C4. Loading the posts always returns. The posts are built in the order of the file
  names; the result holds the same posts, sorted by \<open>updated_at\<close> with the latest first,
  and the posts with one and the same \<open>updated_at\<close> stand in it in the order in which they
  were built.
\<close>

theorem load_posts_stable_descending:
  "\<exists>built posts.
      map_err (build_post e) (sort_key fname files) = Inr built
    \<and> map Post.slug built = map (\<lambda>f. stem (fname f)) (sort_key fname files)
    \<and> map Post.updated_at built = map mtime (sort_key fname files)
    \<and> load_posts e files = Inr posts
    \<and> mset posts = mset built
    \<and> sorted_wrt (\<lambda>a b. naive_key (Post.updated_at b) \<le> naive_key (Post.updated_at a)) posts
    \<and> (\<forall>d. filter (\<lambda>p. Post.updated_at p = d) posts
           = filter (\<lambda>p. Post.updated_at p = d) built)"
proof -
  let ?fs = "sort_key fname files"
  let ?k = "\<lambda>post. naive_key (Post.updated_at post)"
  have "\<exists>built. map_err (build_post e) ?fs = Inr built
      \<and> list_all2 (\<lambda>f p. Post.updated_at p = mtime f \<and> Post.slug p = stem (fname f)) ?fs built"
    by (rule map_err_total) (use build_post_eq in blast)
  then obtain built where b: "map_err (build_post e) ?fs = Inr built"
    and l: "list_all2 (\<lambda>f p. Post.updated_at p = mtime f \<and> Post.slug p = stem (fname f)) ?fs built"
    by blast
  from l have "list_all2 (\<lambda>f p. Post.updated_at p = mtime f) ?fs built"
    and "list_all2 (\<lambda>f p. Post.slug p = stem (fname f)) ?fs built"
    by (auto elim: list_all2_mono)
  then have u: "map Post.updated_at built = map mtime ?fs"
    and s: "map Post.slug built = map (\<lambda>f. stem (fname f)) ?fs"
    by (auto dest: list_all2_map_eq)
  from b have r: "load_posts e files = Inr (list_sort_reverse ?k built)"
    by (simp add: load_posts_def)
  have st: "filter (\<lambda>p. Post.updated_at p = d) (list_sort_reverse ?k built)
      = filter (\<lambda>p. Post.updated_at p = d) built" for d
    using list_sort_reverse_stable [of ?k "naive_key d" built]
    by (simp add: naive_key_inj)
  from b s u r list_sort_reverse_mset [of ?k built] list_sort_reverse_sorted [of ?k built] st
  show ?thesis
    by blast
qed

theorem load_posts_stable_descending_witness:
  "load_posts cpython_utc
     [\<lparr>fname = ''b.md'', content = ''# B'',
       mtime = \<lparr>year = 2025, month = 6, day = 1, hour = 12, minute = 0, second = 0,
                microsecond = 0\<rparr>\<rparr>,
      \<lparr>fname = ''c.md'', content = ''# C'',
       mtime = \<lparr>year = 2025, month = 7, day = 1, hour = 12, minute = 0, second = 0,
                microsecond = 0\<rparr>\<rparr>,
      \<lparr>fname = ''a.md'', content = ''# A'',
       mtime = \<lparr>year = 2025, month = 6, day = 1, hour = 12, minute = 0, second = 0,
                microsecond = 0\<rparr>\<rparr>]
   = Inr [\<lparr>Post.slug = ''c'', Post.title = ''C'', Post.excerpt = [], Post.content_html = ''# C'',
            published_at = None,
            Post.updated_at = \<lparr>year = 2025, month = 7, day = 1, hour = 12, minute = 0,
                                second = 0, microsecond = 0\<rparr>\<rparr>,
          \<lparr>Post.slug = ''a'', Post.title = ''A'', Post.excerpt = [], Post.content_html = ''# A'',
            published_at = None,
            Post.updated_at = \<lparr>year = 2025, month = 6, day = 1, hour = 12, minute = 0,
                                second = 0, microsecond = 0\<rparr>\<rparr>,
          \<lparr>Post.slug = ''b'', Post.title = ''B'', Post.excerpt = [], Post.content_html = ''# B'',
            published_at = None,
            Post.updated_at = \<lparr>year = 2025, month = 6, day = 1, hour = 12, minute = 0,
                                second = 0, microsecond = 0\<rparr>\<rparr>]"
  (is "load_posts cpython_utc ?files = Inr ?posts")
proof -
  have h: "load_posts cpython_utc ?files = Inr ?posts"
    by code_simp
  from load_posts_stable_descending [of cpython_utc ?files]
  obtain posts where "load_posts cpython_utc ?files = Inr posts"
    by blast
  with h show ?thesis
    by simp
qed

text \<open>
  C6. No value of a field line makes a parser raise: both parsers return a result for
  every text, so every post and every roadmap entry is built, and loading the posts
  returns all of them. A \<^verbatim>\<open>date\<close> value that \<open>fromisoformat\<close> rejects leaves \<open>published_at\<close>
  absent; a \<^verbatim>\<open>progress\<close> value that is no integer from 0 to 100 counts as if its line
  were not there; a deadline that no format accepts is ranked like a missing deadline,
  in both sort keys, and raises nothing there. When no deadline of a directory parses to
  an aware value and the host converts the modification times, loading the roadmap
  returns all entries, whatever their fields hold.
\<close>

theorem malformed_field_never_fails:
  "(\<exists>r. parse_markdown e t = Inr r)
   \<and> (\<exists>r. parse_roadmap_entry e t = Inr r)
   \<and> (\<exists>p. build_post e f = Inr p)
   \<and> (\<exists>y. build_entry e f = Inr y)
   \<and> (\<exists>posts. load_posts e files = Inr posts \<and> length posts = length files)
   \<and> (last_option (filter (\<lambda>w. w \<noteq> []) (field_values ''date:'' (scanned_lines t))) = Some v
        \<and> fromisoformat e v = None
      \<longrightarrow> (\<exists>ttl exc html. parse_markdown e t = Inr (ttl, exc, html, None)))
   \<and> (\<exists>ttl st html dl exc. parse_roadmap_entry e t =
        Inr (ttl, st, html, dl,
             last_option (List.map_filter progress_of_value
               (filter (\<lambda>w. progress_of_value w \<noteq> None)
                  (field_values ''progress:'' (scanned_lines t)))),
             exc))
   \<and> (parse_deadline e (deadline x) = None
      \<longrightarrow> homepage_sort_key e x =
            Inr (- (case progress x of Some p \<Rightarrow> p | None \<Rightarrow> - 1), 1, PosInf)
          \<and> roadmap_sort_key e now x =
            (case local_timestamp e (updated_at x) of
               Inl err \<Rightarrow> Inl err
             | Inr ts \<Rightarrow> Inr (status_rank (status x), 1, PosInf, - ts)))
   \<and> ((\<forall>g\<in>set files.
          (\<exists>ts. local_timestamp e (mtime g) = Inr ts)
          \<and> (\<forall>y. build_entry e g = Inr y \<longrightarrow>
                (\<forall>n off. parse_deadline e (deadline y) \<noteq> Some (Aware n off))))
      \<longrightarrow> (\<exists>entries. load_roadmap e clock files = Inr entries
             \<and> length entries = length files))"
proof -
  have c1: "\<exists>r. parse_markdown e t = Inr r"
    by (simp add: parse_markdown_eq)
  have c2: "\<exists>r. parse_roadmap_entry e t = Inr r"
    by (simp add: parse_roadmap_entry_eq)
  have c3: "\<exists>p. build_post e f = Inr p"
    using build_post_eq [of e f] by blast
  have c4: "\<exists>y. build_entry e f = Inr y"
    using build_entry_eq [of e f] by blast
  have c5: "\<exists>posts. load_posts e files = Inr posts \<and> length posts = length files"
  proof -
    have "\<exists>built. map_err (build_post e) (sort_key fname files) = Inr built
        \<and> list_all2 (\<lambda>f p. True) (sort_key fname files) built"
      by (rule map_err_total) (use build_post_eq in blast)
    then obtain built where b: "map_err (build_post e) (sort_key fname files) = Inr built"
      by blast
    then have "length built = length files"
      by (simp add: map_err_length)
    with b show ?thesis
      by (simp add: load_posts_def list_sort_reverse_def)
  qed
  have c6: "\<exists>ttl exc html. parse_markdown e t = Inr (ttl, exc, html, None)"
    if "last_option (filter (\<lambda>w. w \<noteq> []) (field_values ''date:'' (scanned_lines t))) = Some v"
      and "fromisoformat e v = None"
    using that by (simp add: parse_markdown_eq)
  have c7: "\<exists>ttl st html dl exc. parse_roadmap_entry e t =
        Inr (ttl, st, html, dl,
             last_option (List.map_filter progress_of_value
               (filter (\<lambda>w. progress_of_value w \<noteq> None)
                  (field_values ''progress:'' (scanned_lines t)))),
             exc)"
    unfolding parse_roadmap_entry_eq map_filter_drop_None by (intro exI) (rule refl)
  have c9: "\<exists>entries. load_roadmap e clock files = Inr entries \<and> length entries = length files"
    if h: "\<forall>g\<in>set files.
          (\<exists>ts. local_timestamp e (mtime g) = Inr ts)
          \<and> (\<forall>y. build_entry e g = Inr y \<longrightarrow>
                (\<forall>n off. parse_deadline e (deadline y) \<noteq> Some (Aware n off)))"
  proof (rule load_roadmap_total)
    fix g y now
    assume g: "g \<in> set files" and y: "build_entry e g = Inr y"
    from h g y have d: "parse_deadline e (deadline y) \<noteq> Some (Aware n off)" for n off
      by blast
    from h g obtain ts where "local_timestamp e (mtime g) = Inr ts"
      by blast
    moreover from y build_entry_eq [of e g] have "updated_at y = mtime g"
      by auto
    ultimately have ts: "local_timestamp e (updated_at y) = Inr ts"
      by simp
    show "\<exists>k. roadmap_sort_key e now y = Inr k"
    proof (cases "parse_deadline e (deadline y)")
      case None
      with ts show ?thesis
        by (simp add: roadmap_sort_key_no_deadline)
    next
      case (Some dt)
      with d obtain n where "dt = Naive n"
        by (cases dt) auto
      with Some ts show ?thesis
        by (simp add: roadmap_sort_key_def)
    qed
  qed
  from c6 have c6': "last_option (filter (\<lambda>w. w \<noteq> []) (field_values ''date:'' (scanned_lines t)))
        = Some v \<and> fromisoformat e v = None
      \<longrightarrow> (\<exists>ttl exc html. parse_markdown e t = Inr (ttl, exc, html, None))"
    by blast
  have c8: "parse_deadline e (deadline x) = None
      \<longrightarrow> homepage_sort_key e x =
            Inr (- (case progress x of Some p \<Rightarrow> p | None \<Rightarrow> - 1), 1, PosInf)
          \<and> roadmap_sort_key e now x =
            (case local_timestamp e (updated_at x) of
               Inl err \<Rightarrow> Inl err
             | Inr ts \<Rightarrow> Inr (status_rank (status x), 1, PosInf, - ts))"
    using homepage_sort_key_no_deadline [of e x] roadmap_sort_key_no_deadline [of e x now]
    by blast
  from c9 have c9': "(\<forall>g\<in>set files.
          (\<exists>ts. local_timestamp e (mtime g) = Inr ts)
          \<and> (\<forall>y. build_entry e g = Inr y \<longrightarrow>
                (\<forall>n off. parse_deadline e (deadline y) \<noteq> Some (Aware n off))))
      \<longrightarrow> (\<exists>entries. load_roadmap e clock files = Inr entries
             \<and> length entries = length files)"
    by blast
  show ?thesis
    by (intro conjI c1 c2 c3 c4 c5 c6' c7 c8 c9')
qed


theorem malformed_field_never_fails_witness:
  "(\<exists>ttl exc html.
      parse_markdown cpython_utc
        (''# T'' @ [CHR 0x0A] @ ''date: 2024-01-01'' @ [CHR 0x0A] @ ''Date: tomorrow'')
      = Inr (ttl, exc, html, None))
   \<and> homepage_sort_key cpython_utc
        \<lparr>slug = ''a'', title = ''A'', status = ''Next'', status_class = ''status-next'',
         deadline = Some ''soon'', progress = Some 50, excerpt = [], content_html = [],
         updated_at = \<lparr>year = 2025, month = 6, day = 1, hour = 12, minute = 0, second = 0,
                        microsecond = 0\<rparr>\<rparr>
      = Inr (- 50, 1, PosInf)
   \<and> (\<exists>entries.
        load_roadmap cpython_utc
          (\<lambda>i. \<lparr>year = 2026, month = 1, day = 1, hour = 0, minute = 0, second = 0,
                 microsecond = 0\<rparr>)
          [\<lparr>fname = ''a.md'',
            content = ''deadline: soon'' @ [CHR 0x0A] @ ''progress: lots'',
            mtime = \<lparr>year = 2025, month = 6, day = 1, hour = 12, minute = 0, second = 0,
                     microsecond = 0\<rparr>\<rparr>]
        = Inr entries \<and> length entries = 1)"
proof -
  let ?t = "''# T'' @ [CHR 0x0A] @ ''date: 2024-01-01'' @ [CHR 0x0A] @ ''Date: tomorrow''"
  let ?m = "\<lparr>year = 2025, month = 6, day = 1, hour = 12, minute = 0, second = 0,
             microsecond = 0\<rparr>"
  let ?x = "\<lparr>slug = ''a'', title = ''A'', status = ''Next'', status_class = ''status-next'',
         deadline = Some ''soon'', progress = Some 50, excerpt = [], content_html = [],
         updated_at = ?m\<rparr>"
  let ?f = "\<lparr>fname = ''a.md'', content = ''deadline: soon'' @ [CHR 0x0A] @ ''progress: lots'',
            mtime = ?m\<rparr>"
  let ?y = "\<lparr>slug = ''a'', title = ''Untitled'', status = ''Now'', status_class = ''status-now'',
         deadline = Some ''soon'', progress = None, excerpt = [], content_html = [],
         updated_at = ?m\<rparr>"
  let ?clock = "\<lambda>i::nat. \<lparr>year = 2026, month = 1, day = 1, hour = 0, minute = 0, second = 0,
                 microsecond = 0\<rparr>"
  note inst = malformed_field_never_fails
    [of cpython_utc ?t _ "[?f]" "''tomorrow''" ?x _ ?clock]
  have h1: "last_option (filter (\<lambda>w. w \<noteq> []) (field_values ''date:'' (scanned_lines ?t)))
      = Some ''tomorrow'' \<and> fromisoformat cpython_utc ''tomorrow'' = None"
    by code_simp
  have h2: "parse_deadline cpython_utc (deadline ?x) = None"
    by code_simp
  have b: "build_entry cpython_utc ?f = Inr ?y"
    by code_simp
  have d: "parse_deadline cpython_utc (deadline ?y) = None"
    by code_simp
  have ts: "local_timestamp cpython_utc ?m = Inr 1748779200000000"
    by code_simp
  from b d ts have h3: "\<forall>g\<in>set [?f].
      (\<exists>ts. local_timestamp cpython_utc (mtime g) = Inr ts)
      \<and> (\<forall>y. build_entry cpython_utc g = Inr y \<longrightarrow>
            (\<forall>n off. parse_deadline cpython_utc (deadline y) \<noteq> Some (Aware n off)))"
    by simp
  note c6 = inst [THEN conjunct2, THEN conjunct2, THEN conjunct2, THEN conjunct2, THEN conjunct2,
    THEN conjunct1, THEN mp, OF h1]
  note c8 = inst [THEN conjunct2, THEN conjunct2, THEN conjunct2, THEN conjunct2, THEN conjunct2,
    THEN conjunct2, THEN conjunct2, THEN conjunct1, THEN mp, OF h2, THEN conjunct1]
  note c9 = inst [THEN conjunct2, THEN conjunct2, THEN conjunct2, THEN conjunct2, THEN conjunct2,
    THEN conjunct2, THEN conjunct2, THEN conjunct2, THEN mp, OF h3]
  from c8 have c8': "homepage_sort_key cpython_utc ?x = Inr (- 50, 1, PosInf)"
    by simp
  from c9 have c9': "\<exists>entries. load_roadmap cpython_utc ?clock [?f] = Inr entries
      \<and> length entries = 1"
    by simp
  from c6 c8' c9' show ?thesis
    by (intro conjI)
qed

text \<open>
  C1, at an input where the selection fails. An entry with progress 50 and the deadline
  \<^verbatim>\<open>0001-01-01\<close> is a candidate; its deadline parses, and \<^verbatim>\<open>timestamp()\<close> of the parsed
  value raises \<^verbatim>\<open>ValueError\<close> inside the sort key, outside every \<^verbatim>\<open>try\<close>, so the selection
  raises instead of returning.
\<close>

theorem select_homepage_entries_year_one_fails:
  "select_homepage_entries cpython_utc
     [\<lparr>slug = ''a'', title = ''A'', status = ''Now'', status_class = ''status-now'',
       deadline = Some ''0001-01-01'', progress = Some 50, excerpt = [], content_html = [],
       updated_at = \<lparr>year = 2025, month = 6, day = 1, hour = 12, minute = 0, second = 0,
                      microsecond = 0\<rparr>\<rparr>]
   = Inl ValueError"
  by code_simp

text \<open>
  C2, at an input where the ordering fails. A deadline with a UTC offset parses to an
  aware value; the sort key subtracts the naive \<^verbatim>\<open>datetime.now()\<close> from it, which raises
  \<^verbatim>\<open>TypeError\<close>, whatever the clock shows, so \<open>load_roadmap\<close> raises instead of returning
  the sorted entries.
\<close>

theorem load_roadmap_aware_deadline_fails:
  "load_roadmap cpython_utc clock
     [\<lparr>fname = ''a.md'', content = ''deadline: 2024-01-01T00:00:00+00:00'',
       mtime = \<lparr>year = 2025, month = 6, day = 1, hour = 12, minute = 0, second = 0,
                microsecond = 0\<rparr>\<rparr>]
   = Inl TypeError"
  by code_simp

end
